theory Spec2Isabelle
  imports Main
begin

section \<open>Emulator kinds\<close>

text \<open>
  The enum \<^verbatim>\<open>Emulators\<close> and the tables \<^verbatim>\<open>ALL_SERVICE_EMULATORS\<close> and
  \<^verbatim>\<open>ALL_EMULATORS\<close> are imported from \<^verbatim>\<open>emulator/types\<close>. The enum's values are
  strings at run time (\<open>emulator_name\<close>): the controller compares them with the words of
  the \<^verbatim>\<open>--only\<close> flag and with configuration keys.
\<close>

datatype Emulators = HUB | FUNCTIONS | FIRESTORE | DATABASE | HOSTING | PUBSUB

text \<open>Modelled from the spec: the string value of each member of the enum
  \<^verbatim>\<open>Emulators\<close> (emulator/types), the lower-case service name used as configuration key.\<close>

fun emulator_name :: "Emulators \<Rightarrow> string" where
  "emulator_name HUB = ''hub''"
| "emulator_name FUNCTIONS = ''functions''"
| "emulator_name FIRESTORE = ''firestore''"
| "emulator_name DATABASE = ''database''"
| "emulator_name HOSTING = ''hosting''"
| "emulator_name PUBSUB = ''pubsub''"

text \<open>Modelled from the spec: the table \<^verbatim>\<open>ALL_SERVICE_EMULATORS\<close> (emulator/types), every
  kind but the hub.\<close>

definition ALL_SERVICE_EMULATORS :: "Emulators list" where
  "ALL_SERVICE_EMULATORS = [FUNCTIONS, FIRESTORE, DATABASE, HOSTING, PUBSUB]"

text \<open>Modelled from the spec: the table \<^verbatim>\<open>ALL_EMULATORS\<close> (emulator/types), every kind.\<close>

definition ALL_EMULATORS :: "Emulators list" where
  "ALL_EMULATORS = HUB # ALL_SERVICE_EMULATORS"

text \<open>Modelled from the spec: the table \<^verbatim>\<open>IMPORT_EXPORT_EMULATORS\<close> (emulator/types), the
  kinds that support export: the document database, the one kind the metadata has a key
  for.\<close>

definition IMPORT_EXPORT_EMULATORS :: "Emulators list" where
  "IMPORT_EXPORT_EMULATORS = [FIRESTORE]"

section \<open>Strings, paths and JSON\<close>

text \<open>A JavaScript value used as a condition: an absent or empty string is falsy.\<close>

definition truthy :: "string option \<Rightarrow> bool" where
  "truthy v = (case v of None \<Rightarrow> False | Some t \<Rightarrow> t \<noteq> [])"

text \<open>\<^verbatim>\<open>String.prototype.split\<close> with a one-character separator.\<close>

fun split :: "char \<Rightarrow> string \<Rightarrow> string list" where
  "split sep [] = [[]]"
| "split sep (c # cs) =
     (if c = sep then [] # split sep cs
      else (case split sep cs of
              [] \<Rightarrow> [[c]]
            | w # ws \<Rightarrow> (c # w) # ws))"

text \<open>\<^verbatim>\<open>Array.prototype.join\<close>.\<close>

fun join :: "string \<Rightarrow> string list \<Rightarrow> string" where
  "join sep [] = []"
| "join sep [w] = w"
| "join sep (w # v # ws) = w @ sep @ join sep (v # ws)"

text \<open>Decimal rendering of a number inside a template string.\<close>

fun string_of_nat :: "nat \<Rightarrow> string" where
  "string_of_nat n =
     (if n < 10 then [char_of (48 + n)]
      else string_of_nat (n div 10) @ [char_of (48 + n mod 10)])"

subsection \<open>Node's POSIX path module\<close>

text \<open>
  \<^verbatim>\<open>normalizeString\<close> of Node's \<^verbatim>\<open>path\<close>: the segments of a path with empty and \<^verbatim>\<open>.\<close>
  segments dropped and \<^verbatim>\<open>..\<close> resolved; the accumulator holds the segments kept so far,
  last first.
\<close>

fun normalize_segments :: "bool \<Rightarrow> string list \<Rightarrow> string list \<Rightarrow> string list" where
  "normalize_segments allowAboveRoot acc [] = rev acc"
| "normalize_segments allowAboveRoot acc (seg # segs) =
     (if seg = [] \<or> seg = ''.'' then normalize_segments allowAboveRoot acc segs
      else if seg = ''..'' then
        (case acc of
           [] \<Rightarrow> normalize_segments allowAboveRoot (if allowAboveRoot then [''..''] else []) segs
         | t # ts \<Rightarrow>
             if t = ''..'' then normalize_segments allowAboveRoot (''..'' # acc) segs
             else normalize_segments allowAboveRoot ts segs)
      else normalize_segments allowAboveRoot (seg # acc) segs)"

definition normalizeString :: "string \<Rightarrow> bool \<Rightarrow> string" where
  "normalizeString p allowAboveRoot =
     join ''/'' (normalize_segments allowAboveRoot [] (split CHR ''/'' p))"

definition isAbsolute :: "string \<Rightarrow> bool" where
  "isAbsolute p = (case p of [] \<Rightarrow> False | c # _ \<Rightarrow> c = CHR ''/'')"

definition path_normalize :: "string \<Rightarrow> string" where
  "path_normalize p =
     (if p = [] then ''.''
      else
        (let trailing = (last p = CHR ''/'');
             q = normalizeString p (\<not> isAbsolute p)
         in if q = [] then
              (if isAbsolute p then ''/'' else if trailing then ''./'' else ''.'')
            else
              (let q' = (if trailing then q @ ''/'' else q)
               in if isAbsolute p then ''/'' @ q' else q')))"

text \<open>\<^verbatim>\<open>path.join\<close>: the non-empty arguments joined by \<^verbatim>\<open>/\<close>, then normalised.\<close>

definition path_join :: "string list \<Rightarrow> string" where
  "path_join args =
     (let parts = filter (\<lambda>a. a \<noteq> []) args
      in if parts = [] then ''.'' else path_normalize (join ''/'' parts))"

text \<open>
  \<^verbatim>\<open>path.resolve\<close> with one argument: an absolute argument is normalised, a relative one
  is taken from the working directory \<open>cwd\<close> of the process.
\<close>

definition path_resolve :: "string \<Rightarrow> string \<Rightarrow> string" where
  "path_resolve cwd p =
     (let r1 = (if p = [] then [] else p @ ''/'');
          r2 = (if isAbsolute p \<or> cwd = [] then r1 else cwd @ ''/'' @ r1);
          absolute = (isAbsolute p \<or> isAbsolute cwd);
          q = normalizeString r2 (\<not> absolute)
      in if absolute then ''/'' @ q else if q \<noteq> [] then q else ''.'')"

subsection \<open>JSON texts of string-valued objects\<close>

text \<open>
  \<^verbatim>\<open>ExportMetadata\<close> of hubExport.ts. The interface declares \<^verbatim>\<open>version: string\<close> and
  \<^verbatim>\<open>firestore?: string\<close>; the cast of a parsed file to the interface is unchecked, so at run
  time either property may be absent, which is \<open>None\<close> here.
\<close>

record ExportMetadata =
  version :: "string option"
  firestore :: "string option"

text \<open>
  \<^verbatim>\<open>JSON.stringify\<close> on a string (\<^verbatim>\<open>QuoteJSONString\<close>): quote, backslash and the control
  characters are escaped, every other character stands for itself.
\<close>

definition hex_digit :: "nat \<Rightarrow> char" where
  "hex_digit d = (if d < 10 then char_of (48 + d) else char_of (87 + d))"

definition quote_char :: "char \<Rightarrow> string" where
  "quote_char c =
     (if c = CHR 0x22 then [CHR 0x5C, CHR 0x22]
      else if c = CHR 0x5C then [CHR 0x5C, CHR 0x5C]
      else if c = CHR 0x08 then [CHR 0x5C, CHR ''b'']
      else if c = CHR 0x0C then [CHR 0x5C, CHR ''f'']
      else if c = CHR 0x0A then [CHR 0x5C, CHR ''n'']
      else if c = CHR 0x0D then [CHR 0x5C, CHR ''r'']
      else if c = CHR 0x09 then [CHR 0x5C, CHR ''t'']
      else if (of_char c :: nat) < 32 then
        [CHR 0x5C, CHR ''u'', CHR ''0'', CHR ''0'',
         hex_digit (of_char c div 16), hex_digit (of_char c mod 16)]
      else [c])"

definition quote :: "string \<Rightarrow> string" where
  "quote t = CHR 0x22 # concat (map quote_char t) @ [CHR 0x22]"

text \<open>\<^verbatim>\<open>JSON.stringify\<close> on an \<^verbatim>\<open>ExportMetadata\<close>: the defined properties in the order
  of the interface, undefined ones left out.\<close>

definition JSON_stringify :: "ExportMetadata \<Rightarrow> string" where
  "JSON_stringify m =
     ''{'' @ join '',''
        ((case version m of None \<Rightarrow> [] | Some v \<Rightarrow> [quote ''version'' @ '':'' @ quote v]) @
         (case firestore m of None \<Rightarrow> [] | Some f \<Rightarrow> [quote ''firestore'' @ '':'' @ quote f]))
     @ ''}''"

text \<open>
  \<^verbatim>\<open>JSON.parse\<close>, restricted to the texts this program exchanges: one object whose
  members are strings, with insignificant white space. A string's characters are single
  bytes here, so an escape \<^verbatim>\<open>\uXXXX\<close> above \<^verbatim>\<open>00ff\<close> is refused, and so is any JSON text of
  another shape; the program writes neither.
\<close>

definition is_ws :: "char \<Rightarrow> bool" where
  "is_ws c = (c = CHR 0x20 \<or> c = CHR 0x09 \<or> c = CHR 0x0A \<or> c = CHR 0x0D)"

definition skip_ws :: "string \<Rightarrow> string" where
  "skip_ws t = dropWhile is_ws t"

definition hex_val :: "char \<Rightarrow> nat option" where
  "hex_val c =
     (let n = (of_char c :: nat)
      in if 48 \<le> n \<and> n \<le> 57 then Some (n - 48)
         else if 97 \<le> n \<and> n \<le> 102 then Some (n - 87)
         else if 65 \<le> n \<and> n \<le> 70 then Some (n - 55)
         else None)"

definition unescape :: "char \<Rightarrow> char option" where
  "unescape e =
     (if e = CHR 0x22 \<or> e = CHR 0x5C \<or> e = CHR ''/'' then Some e
      else if e = CHR ''b'' then Some (CHR 0x08)
      else if e = CHR ''f'' then Some (CHR 0x0C)
      else if e = CHR ''n'' then Some (CHR 0x0A)
      else if e = CHR ''r'' then Some (CHR 0x0D)
      else if e = CHR ''t'' then Some (CHR 0x09)
      else None)"

definition unicode_escape :: "char \<Rightarrow> char \<Rightarrow> char \<Rightarrow> char \<Rightarrow> char option" where
  "unicode_escape h1 h2 h3 h4 =
     (case (hex_val h1, hex_val h2, hex_val h3, hex_val h4) of
        (Some a, Some b, Some c, Some d) \<Rightarrow>
          (let n = ((a * 16 + b) * 16 + c) * 16 + d
           in if n < 256 then Some (char_of n) else None)
      | _ \<Rightarrow> None)"

text \<open>The characters of a string literal after its opening quote, and the text after
  the closing quote.\<close>

fun parse_chars :: "string \<Rightarrow> (string \<times> string) option" where
  "parse_chars [] = None"
| "parse_chars (c # cs) =
     (if c = CHR 0x22 then Some ([], cs)
      else if c = CHR 0x5C then
        (case cs of
           [] \<Rightarrow> None
         | e # r \<Rightarrow>
             if e = CHR ''u'' then
               (case r of
                  h1 # h2 # h3 # h4 # r' \<Rightarrow>
                    (case unicode_escape h1 h2 h3 h4 of
                       None \<Rightarrow> None
                     | Some ch \<Rightarrow>
                         (case parse_chars r' of
                            None \<Rightarrow> None
                          | Some (t, rest) \<Rightarrow> Some (ch # t, rest)))
                | _ \<Rightarrow> None)
             else
               (case unescape e of
                  None \<Rightarrow> None
                | Some ch \<Rightarrow>
                    (case parse_chars r of
                       None \<Rightarrow> None
                     | Some (t, rest) \<Rightarrow> Some (ch # t, rest))))
      else if (of_char c :: nat) < 32 then None
      else
        (case parse_chars cs of
           None \<Rightarrow> None
         | Some (t, rest) \<Rightarrow> Some (c # t, rest)))"

definition parse_string :: "string \<Rightarrow> (string \<times> string) option" where
  "parse_string t = (case t of [] \<Rightarrow> None | c # cs \<Rightarrow> if c = CHR 0x22 then parse_chars cs else None)"

text \<open>One member \<^verbatim>\<open>"key" : "value"\<close>.\<close>

definition parse_member :: "string \<Rightarrow> ((string \<times> string) \<times> string) option" where
  "parse_member t =
     (case parse_string t of
        None \<Rightarrow> None
      | Some (k, r) \<Rightarrow>
          (case skip_ws r of
             [] \<Rightarrow> None
           | c # r1 \<Rightarrow>
               if c = CHR '':'' then
                 (case parse_string (skip_ws r1) of
                    None \<Rightarrow> None
                  | Some (v, r2) \<Rightarrow> Some ((k, v), r2))
               else None))"

text \<open>The members of an object after its opening brace, up to the end of the text; a
  repeated key keeps its last value.\<close>

function parse_members :: "string \<Rightarrow> (string \<rightharpoonup> string) \<Rightarrow> (string \<rightharpoonup> string) option" where
  "parse_members t obj =
     (case parse_member t of
        None \<Rightarrow> None
      | Some ((k, v), r) \<Rightarrow>
          (case skip_ws r of
             [] \<Rightarrow> None
           | c # r1 \<Rightarrow>
               if c = CHR '','' then parse_members (skip_ws r1) (obj(k \<mapsto> v))
               else if c = CHR ''}'' then (if skip_ws r1 = [] then Some (obj(k \<mapsto> v)) else None)
               else None))"
  by pat_completeness auto
termination
proof (relation "measure (\<lambda>(t, obj). length t)")
  show "wf (measure (\<lambda>(t, obj). length t))"
    by simp
next
  fix t :: string and obj :: "string \<rightharpoonup> string" and x2 x y k v c r1
  assume m: "parse_member t = Some x2" "(x, y) = x2" "(k, v) = x"
    and w: "skip_ws y = c # r1"
  have chars: "length r < length u" if "parse_chars u = Some (a, r)" for u a r
    using that
  proof (induction u arbitrary: a r rule: parse_chars.induct)
    case 1
    then show ?case by simp
  next
    case (2 c cs)
    then show ?case
      by (fastforce split: if_splits list.splits option.splits)
  qed
  have str: "length r < length u" if "parse_string u = Some (a, r)" for u a r
    using that chars [of _ a r]
    by (fastforce simp: parse_string_def split: list.splits if_splits)
  have ws: "length (skip_ws u) \<le> length u" for u
    by (simp add: skip_ws_def length_dropWhile_le)
  from m have pm: "parse_member t = Some ((k, v), y)"
    by simp
  then obtain r r' where r: "parse_string t = Some (k, r)"
    and r': "skip_ws r = CHR '':'' # r'" "parse_string (skip_ws r') = Some (v, y)"
    by (auto simp: parse_member_def split: option.splits list.splits if_splits)
  have "length y < length (skip_ws r')"
    using str [OF r'(2)] .
  also have "\<dots> \<le> length r'"
    by (rule ws)
  also have "\<dots> < length (skip_ws r)"
    by (simp add: r'(1))
  also have "\<dots> \<le> length r"
    by (rule ws)
  also have "\<dots> < length t"
    using str [OF r] .
  finally have "length y < length t" .
  moreover have "length (skip_ws r1) \<le> length r1"
    by (rule ws)
  moreover have "length r1 < length (skip_ws y)"
    by (simp add: w)
  moreover have "length (skip_ws y) \<le> length y"
    by (rule ws)
  ultimately show "((skip_ws r1, obj(k \<mapsto> v)), (t, obj)) \<in> measure (\<lambda>(t, obj). length t)"
    by simp
qed

section \<open>Failures\<close>

text \<open>
  Every way an operation of the controller or of the export coordinator can throw (or
  reject its promise), as a value. \<open>error_message\<close> gives the text of the failures
  whose text the two source files write out.
\<close>

datatype error =
    PortTaken Emulators
  | PubsubWithoutProject
  | NoExportableEmulators
  | ExportNameNotDefined Emulators
  | NoProject
  | NoPortAvailable
  | InvalidInspectionPort
  | FileNotFound string
  | SyntaxError
  | TypeError
  | AlreadyRunning Emulators
  | StartFailed Emulators
  | StopFailed Emulators
  | ConnectFailed Emulators
  | RequestFailed
  | WriteFailed string

fun error_message :: "error \<Rightarrow> string option" where
  "error_message (PortTaken name) =
     Some (''Could not start '' @ emulator_name name @ '' emulator, port taken.'')"
| "error_message PubsubWithoutProject =
     Some (''Cannot start the Pub/Sub emulator without a project: '' @
           ''run 'firebase init' or provide the --project flag'')"
| "error_message NoExportableEmulators = Some ''No running emulators support import/export.''"
| "error_message (ExportNameNotDefined e) =
     Some (''Export name not defined for '' @ emulator_name e)"
| "error_message _ = None"

text \<open>\<^verbatim>\<open>JSON.parse\<close> of a text; the object read is a map from property names to values.\<close>

definition JSON_parse :: "string \<Rightarrow> error + (string \<rightharpoonup> string)" where
  "JSON_parse t =
     (case skip_ws t of
        [] \<Rightarrow> Inl SyntaxError
      | c # r \<Rightarrow>
          if c = CHR ''{'' then
            (case skip_ws r of
               [] \<Rightarrow> Inl SyntaxError
             | d # r1 \<Rightarrow>
                 if d = CHR ''}'' then (if skip_ws r1 = [] then Inr Map.empty else Inl SyntaxError)
                 else
                   (case parse_members (skip_ws r) Map.empty of
                      None \<Rightarrow> Inl SyntaxError
                    | Some obj \<Rightarrow> Inr obj))
          else Inl SyntaxError)"

text \<open>The cast \<^verbatim>\<open>as ExportMetadata\<close> of a parsed object: its two properties are read
  where present, nothing is checked.\<close>

definition asExportMetadata :: "(string \<rightharpoonup> string) \<Rightarrow> ExportMetadata" where
  "asExportMetadata obj = \<lparr>version = obj ''version'', firestore = obj ''firestore''\<rparr>"

section \<open>Options, instances and the state of the process\<close>

text \<open>
  The \<^verbatim>\<open>options\<close> object of a command, as far as the controller reads it: the project
  configuration with its \<^verbatim>\<open>has\<close> and \<^verbatim>\<open>get\<close>, the flags \<^verbatim>\<open>--only\<close>, \<^verbatim>\<open>--import\<close> and
  \<^verbatim>\<open>--inspect-functions\<close>, the project identifier that can be resolved (if any), and the
  \<^verbatim>\<open>targets\<close> that startAll stores into it.
\<close>

record Options =
  config_has :: "string \<Rightarrow> bool"
  config_get :: "string \<Rightarrow> string option"
  config_projectDir :: string
  projectRoot :: string
  only :: "string option"
  import :: "string option"
  inspectFunctions :: "string option"
  project :: "string option"
  targets :: "Emulators list"

record EmulatorInfo =
  host :: string
  port :: nat

text \<open>The arguments each emulator class is constructed with in startAll.\<close>

record EmulatorHubArgs = EmulatorInfo +
  hub_projectId :: "string option"

record FunctionsEmulatorArgs = EmulatorInfo +
  functions_projectId :: "string option"
  functionsDir :: string
  debugPort :: "nat option"

record FirestoreEmulatorArgs = EmulatorInfo +
  firestore_projectId :: "string option"
  firestore_auto_download :: bool
  seed_from_export :: "string option"
  firestore_rules :: "string option"

record DatabaseEmulatorArgs = EmulatorInfo +
  database_projectId :: "string option"
  database_auto_download :: bool
  functions_emulator_host :: "string option"
  functions_emulator_port :: "nat option"
  database_rules :: "string option"

record HostingEmulatorArgs = EmulatorInfo +
  hosting_options :: Options

record PubsubEmulatorArgs = EmulatorInfo +
  pubsub_projectId :: string
  pubsub_auto_download :: bool

datatype EmulatorInstance =
    EmulatorHub EmulatorHubArgs
  | FunctionsEmulator FunctionsEmulatorArgs
  | FirestoreEmulator FirestoreEmulatorArgs
  | DatabaseEmulator DatabaseEmulatorArgs
  | HostingEmulator HostingEmulatorArgs
  | PubsubEmulator PubsubEmulatorArgs

text \<open>Modelled from the spec: \<^verbatim>\<open>getName\<close> of the six emulator classes (emulator/hub,
  emulator/functionsEmulator and their siblings): each instance exposes the kind it was
  built for.\<close>

fun getName :: "EmulatorInstance \<Rightarrow> Emulators" where
  "getName (EmulatorHub a) = HUB"
| "getName (FunctionsEmulator a) = FUNCTIONS"
| "getName (FirestoreEmulator a) = FIRESTORE"
| "getName (DatabaseEmulator a) = DATABASE"
| "getName (HostingEmulator a) = HOSTING"
| "getName (PubsubEmulator a) = PUBSUB"

text \<open>Modelled from the spec: \<^verbatim>\<open>getInfo\<close> of the six emulator classes: the address the
  instance was given.\<close>

fun getInfo :: "EmulatorInstance \<Rightarrow> EmulatorInfo" where
  "getInfo (EmulatorHub a) = \<lparr>host = host a, port = port a\<rparr>"
| "getInfo (FunctionsEmulator a) = \<lparr>host = host a, port = port a\<rparr>"
| "getInfo (FirestoreEmulator a) = \<lparr>host = host a, port = port a\<rparr>"
| "getInfo (DatabaseEmulator a) = \<lparr>host = host a, port = port a\<rparr>"
| "getInfo (HostingEmulator a) = \<lparr>host = host a, port = port a\<rparr>"
| "getInfo (PubsubEmulator a) = \<lparr>host = host a, port = port a\<rparr>"

text \<open>The request exportFirestore sends to the running Firestore emulator.\<close>

record ExportRequest =
  request_method :: string
  request_path :: string
  request_origin :: string
  body_database :: string
  body_export_directory :: string
  body_export_name :: string

text \<open>
  What the program does to its collaborators, in the order it does it: the analytics call
  at the head of startEmulator, the calls on the registry, the connect calls, the export
  request and the write of the metadata file.
\<close>

datatype event =
    Track Emulators
  | RegistryStart Emulators
  | RegistryStop Emulators
  | Connect Emulators
  | ApiRequest ExportRequest
  | WriteFile string

text \<open>
  The collaborators of the controller and of the export coordinator, as parameters of a
  run:
  the port probes of \<^verbatim>\<open>tcp-port-used\<close> (\<open>None\<close>: the probe throws) and \<^verbatim>\<open>portfinder\<close>
  (\<open>None\<close>: no port found), \<^verbatim>\<open>Constants.getAddress\<close>, \<^verbatim>\<open>commandUtils.parseInspectionPort\<close>
  (\<open>None\<close>: it throws), whether an instance's own \<^verbatim>\<open>start\<close>, \<^verbatim>\<open>stop\<close> and \<^verbatim>\<open>connect\<close>
  succeed, whether \<^verbatim>\<open>api.request\<close> and \<^verbatim>\<open>fs.writeFileSync\<close> succeed, the working
  directory, and the constant \<^verbatim>\<open>EmulatorHub.CLI_VERSION\<close>.
\<close>

record Env =
  tcpport_check :: "nat \<Rightarrow> string \<Rightarrow> bool option"
  pf_getPortPromise :: "string \<Rightarrow> nat \<Rightarrow> nat \<Rightarrow> nat option"
  getAddress :: "Emulators \<Rightarrow> Options \<Rightarrow> EmulatorInfo"
  parseInspectionPort :: "Options \<Rightarrow> nat option"
  instance_start :: "EmulatorInstance \<Rightarrow> bool"
  instance_stop :: "EmulatorInstance \<Rightarrow> bool"
  instance_connect :: "EmulatorInstance \<Rightarrow> bool"
  api_request :: "ExportRequest \<Rightarrow> bool"
  fs_writable :: "string \<Rightarrow> bool"
  cwd :: string
  CLI_VERSION :: string

text \<open>
  The mutable state: the process-wide registry (the running instances, in registration
  order), the files of the file system with their contents, and the trace of events.
\<close>

record state =
  registry :: "EmulatorInstance list"
  files :: "string \<rightharpoonup> string"
  trace :: "event list"

text \<open>
  The outcome of an asynchronous operation: the error it throws or the value it returns,
  and the state it leaves. \<open>await\<close> continues after an operation that returned and
  passes its failure on otherwise.
\<close>

type_synonym 'a outcome = "(error + 'a) \<times> state"

definition await :: "'a outcome \<Rightarrow> ('a \<Rightarrow> state \<Rightarrow> 'b outcome) \<Rightarrow> 'b outcome" where
  "await m k = (case m of (Inl e, s) \<Rightarrow> (Inl e, s) | (Inr x, s) \<Rightarrow> k x s)"

definition emit :: "event \<Rightarrow> state \<Rightarrow> state" where
  "emit ev s = s\<lparr>trace := trace s @ [ev]\<rparr>"

section \<open>The registry\<close>

text \<open>Modelled from the spec: \<^verbatim>\<open>EmulatorRegistry.get\<close> (emulator/registry): the running
  instance of a kind, or absence.\<close>

definition Registry_get :: "state \<Rightarrow> Emulators \<Rightarrow> EmulatorInstance option" where
  "Registry_get s name = find (\<lambda>i. getName i = name) (registry s)"

text \<open>Modelled from the spec: \<^verbatim>\<open>EmulatorRegistry.isRunning\<close> (emulator/registry):
  membership in the registry.\<close>

definition isRunning :: "state \<Rightarrow> Emulators \<Rightarrow> bool" where
  "isRunning s name = (Registry_get s name \<noteq> None)"

text \<open>Modelled from the spec: \<^verbatim>\<open>EmulatorRegistry.listRunning\<close> (emulator/registry): the
  kinds currently registered, in registration order.\<close>

definition listRunning :: "state \<Rightarrow> Emulators list" where
  "listRunning s = map getName (registry s)"

text \<open>Modelled from the spec: \<^verbatim>\<open>EmulatorRegistry.start\<close> (emulator/registry): fails if an
  instance of that kind is running; otherwise invokes the instance's start operation,
  then records it under its kind.\<close>

definition Registry_start :: "Env \<Rightarrow> EmulatorInstance \<Rightarrow> state \<Rightarrow> unit outcome" where
  "Registry_start env instance s =
     (let s1 = emit (RegistryStart (getName instance)) s
      in if isRunning s1 (getName instance) then (Inl (AlreadyRunning (getName instance)), s1)
         else if \<not> instance_start env instance then (Inl (StartFailed (getName instance)), s1)
         else (Inr (), s1\<lparr>registry := registry s1 @ [instance]\<rparr>))"

text \<open>Modelled from the spec: \<^verbatim>\<open>EmulatorRegistry.stop\<close> (emulator/registry): invokes the
  stop operation of the instance of that kind if present, then removes the entry; no
  instance of that kind is not an error.\<close>

definition Registry_stop :: "Env \<Rightarrow> Emulators \<Rightarrow> state \<Rightarrow> unit outcome" where
  "Registry_stop env name s =
     (let s1 = emit (RegistryStop name) s
      in case Registry_get s1 name of
           None \<Rightarrow> (Inr (), s1)
         | Some instance \<Rightarrow>
             if \<not> instance_stop env instance then (Inl (StopFailed name), s1)
             else (Inr (), s1\<lparr>registry := filter (\<lambda>i. getName i \<noteq> name) (registry s1)\<rparr>))"

section \<open>The controller\<close>

text \<open>checkPortOpen: a probe that throws reports the port as not open.\<close>

definition checkPortOpen :: "Env \<Rightarrow> nat \<Rightarrow> string \<Rightarrow> bool" where
  "checkPortOpen env p h =
     (case tcpport_check env p h of
        Some inUse \<Rightarrow> \<not> inUse
      | None \<Rightarrow> False)"

text \<open>The loop of cleanShutdown over the names that listRunning returned.\<close>

fun stop_each :: "Env \<Rightarrow> Emulators list \<Rightarrow> state \<Rightarrow> unit outcome" where
  "stop_each env [] s = (Inr (), s)"
| "stop_each env (name # names) s =
     await (Registry_stop env name s) (\<lambda>_ s1. stop_each env names s1)"

definition cleanShutdown :: "Env \<Rightarrow> state \<Rightarrow> bool outcome" where
  "cleanShutdown env s =
     await (stop_each env (listRunning s) s) (\<lambda>_ s1. (Inr True, s1))"

definition startEmulator :: "Env \<Rightarrow> EmulatorInstance \<Rightarrow> state \<Rightarrow> unit outcome" where
  "startEmulator env instance s =
     (let name = getName instance;
          info = getInfo instance;
          s1 = emit (Track name) s;
          portOpen = checkPortOpen env (port info) (host info)
      in if \<not> portOpen then
           await (cleanShutdown env s1) (\<lambda>_ s2. (Inl (PortTaken name), s2))
         else Registry_start env instance s1)"

text \<open>\<^verbatim>\<open>_.intersection\<close> of the targets with the words of the \<^verbatim>\<open>--only\<close> flag.\<close>

definition intersection :: "Emulators list \<Rightarrow> string list \<Rightarrow> Emulators list" where
  "intersection ts ws = filter (\<lambda>e. emulator_name e \<in> set ws) (remdups ts)"

definition filterEmulatorTargets :: "Options \<Rightarrow> Emulators list" where
  "filterEmulatorTargets options =
     (let ts = filter (\<lambda>e. config_has options (emulator_name e) \<or>
                            config_has options (''emulators.'' @ emulator_name e))
                 ALL_SERVICE_EMULATORS
      in case only options of
           None \<Rightarrow> ts
         | Some flag \<Rightarrow> if flag = [] then ts else intersection ts (split CHR '','' flag))"

definition shouldStart :: "Options \<Rightarrow> Emulators \<Rightarrow> bool" where
  "shouldStart options name =
     (if name = HUB then True
      else (let ts = filterEmulatorTargets options in name \<in> set ts))"

text \<open>Modelled from the spec: \<^verbatim>\<open>getProjectId\<close> (the module getProjectId): the project
  identifier if one can be resolved; if none can, nothing when the caller allows it and a
  failure otherwise.\<close>

definition getProjectId :: "Options \<Rightarrow> bool \<Rightarrow> error + string option" where
  "getProjectId options allowNull =
     (case project options of
        Some p \<Rightarrow> Inr (Some p)
      | None \<Rightarrow> if allowNull then Inr None else Inl NoProject)"

definition METADATA_FILE_NAME :: string where
  "METADATA_FILE_NAME = ''metadata.json''"

definition fs_readFileSync :: "state \<Rightarrow> string \<Rightarrow> error + string" where
  "fs_readFileSync s p = (case files s p of None \<Rightarrow> Inl (FileNotFound p) | Some t \<Rightarrow> Inr t)"

definition fs_existsSync :: "state \<Rightarrow> string \<Rightarrow> bool" where
  "fs_existsSync s p = (files s p \<noteq> None)"

definition fs_writeFileSync :: "Env \<Rightarrow> string \<Rightarrow> string \<Rightarrow> state \<Rightarrow> unit outcome" where
  "fs_writeFileSync env p t s =
     (let s1 = emit (WriteFile p) s
      in if fs_writable env p then (Inr (), s1\<lparr>files := (files s1)(p \<mapsto> t)\<rparr>)
         else (Inl (WriteFailed p), s1))"

text \<open>startAll, lines 157 to 166: the export metadata, read from the import directory
  when the \<^verbatim>\<open>--import\<close> flag is given.\<close>

definition startAll_metadata :: "Env \<Rightarrow> Options \<Rightarrow> state \<Rightarrow> ExportMetadata outcome" where
  "startAll_metadata env options s =
     (let exportMetadata = \<lparr>version = Some ''unknown'', firestore = None\<rparr>
      in case import options of
           None \<Rightarrow> (Inr exportMetadata, s)
         | Some dir \<Rightarrow>
             if dir = [] then (Inr exportMetadata, s)
             else
               (let importDir = path_resolve (cwd env) dir
                in case fs_readFileSync s (path_join [importDir, METADATA_FILE_NAME]) of
                     Inl e \<Rightarrow> (Inl e, s)
                   | Inr t \<Rightarrow>
                       (case JSON_parse t of
                          Inl e \<Rightarrow> (Inl e, s)
                        | Inr obj \<Rightarrow> (Inr (asExportMetadata obj), s))))"

text \<open>startAll, lines 168 to 196.\<close>

definition startAll_functions :: "Env \<Rightarrow> Options \<Rightarrow> state \<Rightarrow> unit outcome" where
  "startAll_functions env options s =
     (if shouldStart options FUNCTIONS then
        (let functionsAddr = getAddress env FUNCTIONS options
         in case getProjectId options False of
              Inl e \<Rightarrow> (Inl e, s)
            | Inr projectId \<Rightarrow>
                (case config_get options ''functions.source'' of
                   None \<Rightarrow> (Inl TypeError, s)
                 | Some source \<Rightarrow>
                     (let functionsDir = path_join [config_projectDir options, source]
                      in case (if truthy (inspectFunctions options) then
                                 (case parseInspectionPort env options of
                                    None \<Rightarrow> Inl InvalidInspectionPort
                                  | Some p \<Rightarrow> Inr (Some p))
                               else Inr None) of
                           Inl e \<Rightarrow> (Inl e, s)
                         | Inr inspect \<Rightarrow>
                             startEmulator env
                               (FunctionsEmulator
                                  \<lparr>host = host functionsAddr, port = port functionsAddr,
                                   functions_projectId = projectId,
                                   functionsDir = functionsDir,
                                   debugPort = inspect\<rparr>) s)))
      else (Inr (), s))"

text \<open>startAll, lines 208 to 218: the seed path of the Firestore emulator.\<close>

definition firestore_seed ::
  "Env \<Rightarrow> Options \<Rightarrow> ExportMetadata \<Rightarrow> FirestoreEmulatorArgs \<Rightarrow> error + FirestoreEmulatorArgs" where
  "firestore_seed env options exportMetadata args =
     (case firestore exportMetadata of
        None \<Rightarrow> Inr args
      | Some name \<Rightarrow>
          if name = [] then Inr args
          else
            (case import options of
               None \<Rightarrow> Inl TypeError
             | Some dir \<Rightarrow>
                 (let importDirAbsPath = path_resolve (cwd env) dir;
                      firestoreExportName = path_join [importDirAbsPath, name];
                      exportMetadataFilePath =
                        path_join [importDirAbsPath,
                          firestoreExportName @ ''/'' @ firestoreExportName @
                          ''.overall_export_metadata'']
                  in Inr (args\<lparr>seed_from_export := Some exportMetadataFilePath\<rparr>))))"

text \<open>The rules file named in the configuration under \<open>key\<close>, if the file exists
  (lines 220 to 234 and 263 to 277).\<close>

definition rules_file :: "Options \<Rightarrow> state \<Rightarrow> string \<Rightarrow> string option" where
  "rules_file options s key =
     (case config_get options key of
        None \<Rightarrow> None
      | Some rulesLocalPath \<Rightarrow>
          if rulesLocalPath = [] then None
          else
            (let rules = path_join [projectRoot options, rulesLocalPath]
             in if fs_existsSync s rules then Some rules else None))"

text \<open>startAll, lines 198 to 245.\<close>

definition startAll_firestore ::
  "Env \<Rightarrow> Options \<Rightarrow> string option \<Rightarrow> ExportMetadata \<Rightarrow> state \<Rightarrow> unit outcome" where
  "startAll_firestore env options projectId exportMetadata s =
     (if shouldStart options FIRESTORE then
        (let firestoreAddr = getAddress env FIRESTORE options;
             args = \<lparr>host = host firestoreAddr, port = port firestoreAddr,
                     firestore_projectId = projectId, firestore_auto_download = True,
                     seed_from_export = None, firestore_rules = None\<rparr>
         in case firestore_seed env options exportMetadata args of
              Inl e \<Rightarrow> (Inl e, s)
            | Inr args1 \<Rightarrow>
                startEmulator env
                  (FirestoreEmulator
                     (args1\<lparr>firestore_rules := rules_file options s ''firestore.rules''\<rparr>)) s)
      else (Inr (), s))"

text \<open>startAll, lines 247 to 288.\<close>

definition startAll_database :: "Env \<Rightarrow> Options \<Rightarrow> string option \<Rightarrow> state \<Rightarrow> unit outcome" where
  "startAll_database env options projectId s =
     (if shouldStart options DATABASE then
        (let databaseAddr = getAddress env DATABASE options;
             args = \<lparr>host = host databaseAddr, port = port databaseAddr,
                     database_projectId = projectId, database_auto_download = True,
                     functions_emulator_host = None, functions_emulator_port = None,
                     database_rules = None\<rparr>;
             args1 = (if shouldStart options FUNCTIONS then
                        (let functionsAddr = getAddress env FUNCTIONS options
                         in args\<lparr>functions_emulator_host := Some (host functionsAddr),
                                 functions_emulator_port := Some (port functionsAddr)\<rparr>)
                      else args)
         in startEmulator env
              (DatabaseEmulator
                 (args1\<lparr>database_rules := rules_file options s ''database.rules''\<rparr>)) s)
      else (Inr (), s))"

text \<open>startAll, lines 290 to 299.\<close>

definition startAll_hosting :: "Env \<Rightarrow> Options \<Rightarrow> state \<Rightarrow> unit outcome" where
  "startAll_hosting env options s =
     (if shouldStart options HOSTING then
        (let hostingAddr = getAddress env HOSTING options
         in startEmulator env
              (HostingEmulator
                 \<lparr>host = host hostingAddr, port = port hostingAddr,
                  hosting_options = options\<rparr>) s)
      else (Inr (), s))"

text \<open>startAll, lines 301 to 316; \<^verbatim>\<open>!projectId\<close> holds of an absent and of an empty
  identifier.\<close>

definition startAll_pubsub :: "Env \<Rightarrow> Options \<Rightarrow> string option \<Rightarrow> state \<Rightarrow> unit outcome" where
  "startAll_pubsub env options projectId s =
     (if shouldStart options PUBSUB then
        (case projectId of
           None \<Rightarrow> (Inl PubsubWithoutProject, s)
         | Some p \<Rightarrow>
             if p = [] then (Inl PubsubWithoutProject, s)
             else
               (let pubsubAddr = getAddress env PUBSUB options
                in startEmulator env
                     (PubsubEmulator
                        \<lparr>host = host pubsubAddr, port = port pubsubAddr,
                         pubsub_projectId = p, pubsub_auto_download = True\<rparr>) s))
      else (Inr (), s))"

text \<open>startAll, lines 318 to 324: connect every instance of the registry.\<close>

fun connect_each :: "Env \<Rightarrow> Emulators list \<Rightarrow> state \<Rightarrow> unit outcome" where
  "connect_each env [] s = (Inr (), s)"
| "connect_each env (name # names) s =
     (case Registry_get s name of
        None \<Rightarrow> connect_each env names s
      | Some instance \<Rightarrow>
          (let s1 = emit (Connect name) s
           in if instance_connect env instance then connect_each env names s1
              else (Inl (ConnectFailed name), s1)))"

definition startAll :: "Env \<Rightarrow> Options \<Rightarrow> state \<Rightarrow> unit outcome" where
  "startAll env options0 s0 =
     (let ts = filterEmulatorTargets options0;
          options = options0\<lparr>targets := ts\<rparr>
      in case getProjectId options True of
           Inl e \<Rightarrow> (Inl e, s0)
         | Inr projectId \<Rightarrow>
             (let hubAddr = getAddress env HUB options
              in case pf_getPortPromise env (host hubAddr) (port hubAddr) (port hubAddr + 100) of
                   None \<Rightarrow> (Inl NoPortAvailable, s0)
                 | Some hubPort \<Rightarrow>
                     await (startEmulator env
                              (EmulatorHub \<lparr>host = host hubAddr, port = hubPort,
                                            hub_projectId = projectId\<rparr>) s0) (\<lambda>_ s1.
                     await (startAll_metadata env options s1) (\<lambda>exportMetadata s2.
                     await (startAll_functions env options s2) (\<lambda>_ s3.
                     await (startAll_firestore env options projectId exportMetadata s3) (\<lambda>_ s4.
                     await (startAll_database env options projectId s4) (\<lambda>_ s5.
                     await (startAll_hosting env options s5) (\<lambda>_ s6.
                     await (startAll_pubsub env options projectId s6) (\<lambda>_ s7.
                     connect_each env (listRunning s7) s7)))))))))"

section \<open>The export coordinator (hubExport.ts)\<close>

definition shouldExport :: "Env \<Rightarrow> state \<Rightarrow> Emulators \<Rightarrow> bool" where
  "shouldExport env s e = (e \<in> set IMPORT_EXPORT_EMULATORS \<and> isRunning s e)"

fun getExportName :: "Emulators \<Rightarrow> error + string" where
  "getExportName FIRESTORE = Inr ''firestore_export''"
| "getExportName e = Inl (ExportNameNotDefined e)"

text \<open>exportFirestore: the request to the running Firestore emulator. The emulator's own
  writes under the export directory are not part of the state; \<open>files\<close> holds what the
  controller and the coordinator read and write themselves.\<close>

definition exportFirestore :: "Env \<Rightarrow> string \<Rightarrow> string \<Rightarrow> state \<Rightarrow> unit outcome" where
  "exportFirestore env projectId exportPath s =
     (case Registry_get s FIRESTORE of
        None \<Rightarrow> (Inl TypeError, s)
      | Some instance \<Rightarrow>
          (let firestoreInfo = getInfo instance;
               firestoreHost =
                 ''http://'' @ host firestoreInfo @ '':'' @ string_of_nat (port firestoreInfo)
           in case getExportName FIRESTORE of
                Inl e \<Rightarrow> (Inl e, s)
              | Inr name \<Rightarrow>
                  (let request =
                         \<lparr>request_method = ''POST'',
                          request_path = ''/emulator/v1/projects/'' @ projectId @ '':export'',
                          request_origin = firestoreHost,
                          body_database = ''projects/'' @ projectId @ ''/databases/(default)'',
                          body_export_directory = exportPath,
                          body_export_name = name\<rparr>;
                       s1 = emit (ApiRequest request) s
                   in if api_request env request then (Inr (), s1)
                      else (Inl RequestFailed, s1))))"

text \<open>exportAll, lines 33 to 36: the Firestore part of the metadata.\<close>

definition exportAll_firestore ::
  "Env \<Rightarrow> string \<Rightarrow> string \<Rightarrow> ExportMetadata \<Rightarrow> state \<Rightarrow> ExportMetadata outcome" where
  "exportAll_firestore env projectId exportPath metadata s =
     (if shouldExport env s FIRESTORE then
        (case getExportName FIRESTORE of
           Inl e \<Rightarrow> (Inl e, s)
         | Inr name \<Rightarrow>
             await (exportFirestore env projectId exportPath s)
               (\<lambda>_ s1. (Inr (metadata\<lparr>firestore := Some name\<rparr>), s1)))
      else (Inr metadata, s))"

definition exportAll :: "Env \<Rightarrow> string \<Rightarrow> string \<Rightarrow> state \<Rightarrow> unit outcome" where
  "exportAll env projectId exportPath s =
     (let toExport = filter (shouldExport env s) ALL_EMULATORS
      in if length toExport = 0 then (Inl NoExportableEmulators, s)
         else
           (let metadata = \<lparr>version = Some (CLI_VERSION env), firestore = None\<rparr>
            in await (exportAll_firestore env projectId exportPath metadata s)
                 (\<lambda>metadata1 s1.
                    (let metadataPath = path_join [exportPath, METADATA_FILE_NAME]
                     in fs_writeFileSync env metadataPath (JSON_stringify metadata1) s1))))"

section \<open>Reading a run\<close>

text \<open>The events a run added to the trace, and the kinds startEmulator was called for
  among them, in order.\<close>

definition events_since :: "state \<Rightarrow> state \<Rightarrow> event list" where
  "events_since s s' = drop (length (trace s)) (trace s')"

fun attempts :: "event list \<Rightarrow> Emulators list" where
  "attempts [] = []"
| "attempts (Track k # evs) = k # attempts evs"
| "attempts (ev # evs) = attempts evs"

fun is_stop :: "event \<Rightarrow> bool" where
  "is_stop (RegistryStop k) = True"
| "is_stop ev = False"

text \<open>The hub instance startAll builds, given the port that was found for it.\<close>

definition hub_instance :: "Env \<Rightarrow> Options \<Rightarrow> nat \<Rightarrow> EmulatorInstance" where
  "hub_instance env options hubPort =
     (let opts = options\<lparr>targets := filterEmulatorTargets options\<rparr>
      in EmulatorHub \<lparr>host = host (getAddress env HUB opts), port = hubPort,
                      hub_projectId = project options\<rparr>)"

text \<open>
  Vocabulary for the proofs about startAll. A failure that comes out of the shutdown
  inside startEmulator; a run that stopped nothing (it left the files alone, kept every
  registered instance and issued no stop); an operation that stops nothing unless it ends
  in such a failure; one that leaves an empty registry when it ends in a port conflict;
  and one that calls startEmulator for a prefix of the kinds \<open>ks\<close>, for all of them
  when it returns.
\<close>

fun shutdown_error :: "error \<Rightarrow> bool" where
  "shutdown_error (PortTaken k) = True"
| "shutdown_error (StopFailed k) = True"
| "shutdown_error e = False"

definition quiet_run :: "state \<Rightarrow> state \<Rightarrow> bool" where
  "quiet_run s s' =
     (files s' = files s \<and> (\<exists>is. registry s' = registry s @ is) \<and>
      (\<exists>evs. trace s' = trace s @ evs \<and> filter is_stop evs = []))"

definition no_shutdown :: "state \<Rightarrow> 'a outcome \<Rightarrow> bool" where
  "no_shutdown s m =
     (case fst m of
        Inl e \<Rightarrow> shutdown_error e \<or> quiet_run s (snd m)
      | Inr x \<Rightarrow> quiet_run s (snd m))"

definition rolled_back :: "'a outcome \<Rightarrow> bool" where
  "rolled_back m = (\<forall>k. fst m = Inl (PortTaken k) \<longrightarrow> registry (snd m) = [])"

definition attempted :: "Emulators list \<Rightarrow> state \<Rightarrow> 'a outcome \<Rightarrow> bool" where
  "attempted ks s m =
     (\<exists>evs. trace (snd m) = trace s @ evs \<and>
        (case fst m of
           Inl e \<Rightarrow> (\<exists>rest. ks = attempts evs @ rest)
         | Inr x \<Rightarrow> attempts evs = ks))"

text \<open>The shape of each of the five service blocks of startAll: skipped when the kind is
  not selected, else a failed precondition in the state as it was, or the shared start
  procedure on an instance of the kind.\<close>

definition block_shape ::
  "Env \<Rightarrow> Emulators \<Rightarrow> EmulatorInfo \<Rightarrow> bool \<Rightarrow> state \<Rightarrow> unit outcome \<Rightarrow> bool" where
  "block_shape env k addr selected s m =
     (if selected then
        (\<exists>e. m = (Inl e, s) \<and> e \<in> {NoProject, TypeError, InvalidInspectionPort,
                                       PubsubWithoutProject}) \<or>
        (\<exists>i. getName i = k \<and> getInfo i = addr \<and> m = startEmulator env i s)
      else m = (Inr (), s))"

text \<open>
  The address startAll resolves for a kind: for a service the one \<^verbatim>\<open>Constants.getAddress\<close>
  gives, for the hub that host with the port \<^verbatim>\<open>portfinder\<close> found. An operation is stuck
  when it ends in the failure of the stop of an instance that is still registered and
  refuses to stop. It lets port conflicts surface when, having called startEmulator for a
  kind whose resolved port is not open, it ends in the port-taken failure of that kind,
  or stuck.
\<close>

definition resolved_address :: "Env \<Rightarrow> Options \<Rightarrow> Emulators \<Rightarrow> EmulatorInfo" where
  "resolved_address env options k =
     (let opts = options\<lparr>targets := filterEmulatorTargets options\<rparr>;
          addr = getAddress env k opts
      in if k = HUB then
           (case pf_getPortPromise env (host addr) (port addr) (port addr + 100) of
              None \<Rightarrow> addr
            | Some hubPort \<Rightarrow> addr\<lparr>port := hubPort\<rparr>)
         else addr)"

definition port_open :: "Env \<Rightarrow> EmulatorInfo \<Rightarrow> bool" where
  "port_open env addr = checkPortOpen env (port addr) (host addr)"

definition stuck :: "Env \<Rightarrow> 'a outcome \<Rightarrow> bool" where
  "stuck env m =
     (\<exists>j\<in>set (registry (snd m)). fst m = Inl (StopFailed (getName j)) \<and> \<not> instance_stop env j)"

definition surfaces :: "Env \<Rightarrow> (Emulators \<Rightarrow> EmulatorInfo) \<Rightarrow> state \<Rightarrow> 'a outcome \<Rightarrow> bool" where
  "surfaces env addr s m =
     (\<exists>evs. trace (snd m) = trace s @ evs \<and>
        list_all (\<lambda>k. port_open env (addr k) \<or> fst m = Inl (PortTaken k) \<or> stuck env m)
          (attempts evs))"

text \<open>The four together.\<close>

definition behaved ::
  "Env \<Rightarrow> (Emulators \<Rightarrow> EmulatorInfo) \<Rightarrow> Emulators list \<Rightarrow> state \<Rightarrow> 'a outcome \<Rightarrow> bool" where
  "behaved env addr ks s m =
     (no_shutdown s m \<and> rolled_back m \<and> attempted ks s m \<and> surfaces env addr s m)"

text \<open>
  How far startAll gets. The export metadata is readable when lines 157 to 166 do not throw.
  A kind is ready when the part of startAll that precedes its call of startEmulator does
  not throw: for the hub a port was found; for a service the metadata is readable, and
  moreover for Functions there are a project identifier and a configured source directory
  and the inspection port, if asked for, parses, and for Pub/Sub there is a project
  identifier. A kind is startable when its resolved port is open, no instance of it is
  registered and every instance of it starts. Of a list of kinds, startAll is bound to
  reach the ready ones up to and including the first that is not startable, and none from
  the first that is not ready.
\<close>

fun reach :: "('a \<Rightarrow> bool) \<Rightarrow> ('a \<Rightarrow> bool) \<Rightarrow> 'a list \<Rightarrow> 'a list" where
  "reach R S [] = []"
| "reach R S (k # ks) = (if R k then (if S k then k # reach R S ks else [k]) else [])"

definition metadata_readable :: "Env \<Rightarrow> Options \<Rightarrow> state \<Rightarrow> bool" where
  "metadata_readable env options s =
     (case fst (startAll_metadata env options s) of Inl e \<Rightarrow> False | Inr exportMetadata \<Rightarrow> True)"

definition ready :: "Env \<Rightarrow> Options \<Rightarrow> state \<Rightarrow> Emulators \<Rightarrow> bool" where
  "ready env options s k =
     (let opts = options\<lparr>targets := filterEmulatorTargets options\<rparr>;
          hubAddr = getAddress env HUB opts
      in case k of
           HUB \<Rightarrow>
             pf_getPortPromise env (host hubAddr) (port hubAddr) (port hubAddr + 100) \<noteq> None
         | FUNCTIONS \<Rightarrow>
             metadata_readable env options s \<and> project options \<noteq> None \<and>
             config_get options ''functions.source'' \<noteq> None \<and>
             (truthy (inspectFunctions options) \<longrightarrow> parseInspectionPort env opts \<noteq> None)
         | FIRESTORE \<Rightarrow> metadata_readable env options s
         | DATABASE \<Rightarrow> metadata_readable env options s
         | HOSTING \<Rightarrow> metadata_readable env options s
         | PUBSUB \<Rightarrow> metadata_readable env options s \<and> truthy (project options))"

definition startable :: "Env \<Rightarrow> Options \<Rightarrow> state \<Rightarrow> Emulators \<Rightarrow> bool" where
  "startable env options s k =
     (port_open env (resolved_address env options k) \<and> k \<notin> set (listRunning s) \<and>
      (\<forall>i. getName i = k \<longrightarrow> instance_start env i))"

text \<open>
  An operation advances through the kinds \<open>ks\<close> when it leaves the files alone, calls
  startEmulator at least for the kinds it is bound to reach and, when every kind is ready
  and startable, calls it for exactly these kinds, registers one instance of each, in
  order, and returns if \<open>ok\<close> holds.
\<close>

definition advances ::
  "(Emulators \<Rightarrow> bool) \<Rightarrow> (Emulators \<Rightarrow> bool) \<Rightarrow> bool \<Rightarrow> Emulators list \<Rightarrow> state \<Rightarrow>
     'a outcome \<Rightarrow> bool" where
  "advances R P ok ks s m =
     (distinct ks \<longrightarrow>
        files (snd m) = files s \<and>
        (\<exists>evs. trace (snd m) = trace s @ evs \<and>
           (\<exists>rest. attempts evs = reach R (\<lambda>k. P k \<and> k \<notin> set (listRunning s)) ks @ rest) \<and>
           (list_all (\<lambda>k. R k \<and> P k \<and> k \<notin> set (listRunning s)) ks \<longrightarrow>
              attempts evs = ks \<and> listRunning (snd m) = listRunning s @ ks \<and>
              (ok \<longrightarrow> \<not> isl (fst m)))))"

section \<open>Scenarios\<close>

text \<open>
  A local development setup: every service on its default port of one host, every port
  free, every collaborator answering. The project configures Firestore and Hosting.
\<close>

definition local_getAddress :: "Emulators \<Rightarrow> Options \<Rightarrow> EmulatorInfo" where
  "local_getAddress e options =
     \<lparr>host = ''localhost'',
      port = (case e of HUB \<Rightarrow> 4000 | FUNCTIONS \<Rightarrow> 5001 | FIRESTORE \<Rightarrow> 8080
              | DATABASE \<Rightarrow> 9000 | HOSTING \<Rightarrow> 5000 | PUBSUB \<Rightarrow> 8085)\<rparr>"

definition quiet_env :: Env where
  "quiet_env =
     \<lparr>tcpport_check = (\<lambda>p h. Some False),
      pf_getPortPromise = (\<lambda>h p stop. Some p),
      getAddress = local_getAddress,
      parseInspectionPort = (\<lambda>options. Some 9229),
      instance_start = (\<lambda>i. True),
      instance_stop = (\<lambda>i. True),
      instance_connect = (\<lambda>i. True),
      api_request = (\<lambda>r. True),
      fs_writable = (\<lambda>p. True),
      cwd = ''/home/user/app'',
      CLI_VERSION = ''7.13.0''\<rparr>"

text \<open>The same setup with port 5000 taken, with instances that refuse to stop, and
  with a Firestore emulator that does not answer the export request.\<close>

definition busy_env :: Env where
  "busy_env = quiet_env\<lparr>tcpport_check := (\<lambda>p h. Some (p = 5000))\<rparr>"

definition stubborn_env :: Env where
  "stubborn_env = busy_env\<lparr>instance_stop := (\<lambda>i. False)\<rparr>"

definition offline_env :: Env where
  "offline_env = quiet_env\<lparr>api_request := (\<lambda>r. False)\<rparr>"

text \<open>The setup in which the Firestore emulator alone refuses to stop; with and without
  port 5000 taken.\<close>

definition firestore_stuck_env :: Env where
  "firestore_stuck_env = quiet_env\<lparr>instance_stop := (\<lambda>i. getName i \<noteq> FIRESTORE)\<rparr>"


definition base_options :: Options where
  "base_options =
     \<lparr>config_has = (\<lambda>k. k = ''firestore'' \<or> k = ''hosting''),
      config_get = (\<lambda>k. None),
      config_projectDir = ''/home/user/app'',
      projectRoot = ''/home/user/app'',
      only = None,
      import = None,
      inspectFunctions = None,
      project = Some ''demo'',
      targets = []\<rparr>"

text \<open>A project that configures Pub/Sub only and has no project identifier; and the base
  project started with \<^verbatim>\<open>--import /data/export\<close>.\<close>

definition pubsub_options :: Options where
  "pubsub_options = base_options\<lparr>config_has := (\<lambda>k. k = ''pubsub''), project := None\<rparr>"

definition import_options :: Options where
  "import_options = base_options\<lparr>import := Some ''/data/export''\<rparr>"

text \<open>The base project started with \<^verbatim>\<open>--only hosting\<close>.\<close>

definition only_hosting_options :: Options where
  "only_hosting_options = base_options\<lparr>only := Some ''hosting''\<rparr>"

text \<open>A project that configures all five services, its functions in the directory
  \<^verbatim>\<open>functions\<close>.\<close>

definition all_services_options :: Options where
  "all_services_options =
     base_options
       \<lparr>config_has := (\<lambda>k. k \<in> {''functions'', ''firestore'', ''database'', ''hosting'', ''pubsub''}),
        config_get := (\<lambda>k. if k = ''functions.source'' then Some ''functions'' else None)\<rparr>"

definition fresh :: state where
  "fresh = \<lparr>registry = [], files = Map.empty, trace = []\<rparr>"

definition local_hub :: EmulatorInstance where
  "local_hub = EmulatorHub \<lparr>host = ''localhost'', port = 4000, hub_projectId = Some ''demo''\<rparr>"

definition local_firestore :: EmulatorInstance where
  "local_firestore =
     FirestoreEmulator
       \<lparr>host = ''localhost'', port = 8080, firestore_projectId = Some ''demo'',
        firestore_auto_download = True, seed_from_export = None, firestore_rules = None\<rparr>"

definition local_hosting :: EmulatorInstance where
  "local_hosting =
     HostingEmulator \<lparr>host = ''localhost'', port = 5000, hosting_options = base_options\<lparr>targets := [FIRESTORE, HOSTING]\<rparr>\<rparr>"

definition hub_running :: state where
  "hub_running = \<lparr>registry = [local_hub], files = Map.empty, trace = []\<rparr>"

definition firestore_running :: state where
  "firestore_running = \<lparr>registry = [local_hub, local_firestore], files = Map.empty, trace = []\<rparr>"

definition all_running :: state where
  "all_running =
     \<lparr>registry = [local_hub, local_firestore, local_hosting], files = Map.empty, trace = []\<rparr>"

text \<open>The state of a new process that finds the export of the base project on disk.\<close>

definition exported_metadata :: string where
  "exported_metadata =
     JSON_stringify \<lparr>version = Some ''7.13.0'', firestore = Some ''firestore_export''\<rparr>"

definition after_export :: state where
  "after_export =
     \<lparr>registry = [], files = [''/data/export/metadata.json'' \<mapsto> exported_metadata],
      trace = []\<rparr>"

section \<open>JSON: parsing what was serialised\<close>

declare parse_members.simps [simp del]

lemma skip_ws_nonws: "\<not> is_ws c \<Longrightarrow> skip_ws (c # t) = c # t"
  by (simp add: skip_ws_def)

lemma hex_val_hex_digit: "d < 16 \<Longrightarrow> hex_val (hex_digit d) = Some d"
  by (auto simp: hex_val_def hex_digit_def Let_def)

lemma unicode_escape_control:
  assumes "(of_char c :: nat) < 32"
  shows "unicode_escape CHR ''0'' CHR ''0''
           (hex_digit (of_char c div 16)) (hex_digit (of_char c mod 16)) = Some c"
proof -
  let ?n = "of_char c :: nat"
  have a: "hex_val (hex_digit (?n div 16)) = Some (?n div 16)"
    using assms by (intro hex_val_hex_digit) simp
  have b: "hex_val (hex_digit (?n mod 16)) = Some (?n mod 16)"
    by (intro hex_val_hex_digit) simp
  have z: "hex_val CHR ''0'' = Some 0"
    by (simp add: hex_val_def)
  have "?n div 16 * 16 + ?n mod 16 = ?n"
    by simp
  then show ?thesis
    using assms by (simp add: unicode_escape_def a b z)
qed

lemma parse_chars_quote_char:
  assumes "parse_chars u = Some (t, rest)"
  shows "parse_chars (quote_char c @ u) = Some (c # t, rest)"
proof (cases "(of_char c :: nat) < 32")
  case True
  then show ?thesis
    using assms unicode_escape_control [OF True]
    by (simp add: quote_char_def unescape_def)
next
  case False
  then show ?thesis
    using assms by (auto simp: quote_char_def unescape_def)
qed

lemma parse_chars_quote:
  "parse_chars (concat (map quote_char t) @ CHR 0x22 # rest) = Some (t, rest)"
  by (induction t) (simp_all add: parse_chars_quote_char)

lemma parse_string_quote: "parse_string (quote t @ rest) = Some (t, rest)"
  by (simp add: parse_string_def quote_def parse_chars_quote)

lemma skip_ws_quote: "skip_ws (quote t @ rest) = quote t @ rest"
  by (simp add: quote_def skip_ws_nonws is_ws_def)

lemma parse_member_quote:
  "parse_member (quote k @ CHR '':'' # quote v @ rest) = Some ((k, v), rest)"
  by (simp add: parse_member_def parse_string_quote skip_ws_quote skip_ws_nonws is_ws_def)

lemma parse_members_last:
  "parse_members (quote k @ CHR '':'' # quote v @ ''}'') obj = Some (obj(k \<mapsto> v))"
  by (subst parse_members.simps)
     (simp add: parse_member_quote skip_ws_nonws is_ws_def skip_ws_def [of "[]"])

lemma parse_members_more:
  "parse_members (quote k @ CHR '':'' # quote v @ CHR '','' # quote k' @ rest) obj =
   parse_members (quote k' @ rest) (obj(k \<mapsto> v))"
  by (subst parse_members.simps)
     (simp add: parse_member_quote skip_ws_nonws is_ws_def skip_ws_quote)

lemma JSON_parse_object:
  "JSON_parse (CHR ''{'' # quote k @ rest) =
     (case parse_members (quote k @ rest) Map.empty of
        None \<Rightarrow> Inl SyntaxError
      | Some obj \<Rightarrow> Inr obj)"
proof -
  have "skip_ws (quote k @ rest) = CHR 0x22 # concat (map quote_char k) @ CHR 0x22 # rest"
    by (simp add: quote_def skip_ws_nonws is_ws_def)
  then show ?thesis
    by (simp add: JSON_parse_def skip_ws_nonws is_ws_def skip_ws_quote)
qed

lemma JSON_parse_stringify:
  "JSON_parse (JSON_stringify m) =
     Inr (\<lambda>k. if k = ''version'' then version m
               else if k = ''firestore'' then firestore m else None)"
proof (cases "version m"; cases "firestore m")
  assume "version m = None" "firestore m = None"
  then show ?thesis
    by (auto simp: JSON_parse_def JSON_stringify_def skip_ws_def is_ws_def)
next
  fix f assume "version m = None" "firestore m = Some f"
  then show ?thesis
    by (auto simp: JSON_stringify_def JSON_parse_object parse_members_last fun_eq_iff)
next
  fix v assume "version m = Some v" "firestore m = None"
  then show ?thesis
    by (auto simp: JSON_stringify_def JSON_parse_object parse_members_last fun_eq_iff)
next
  fix v f assume "version m = Some v" "firestore m = Some f"
  then show ?thesis
    by (auto simp: JSON_stringify_def JSON_parse_object parse_members_more
        parse_members_last fun_eq_iff)
qed

lemma asExportMetadata_parse_stringify:
  "map_sum id asExportMetadata (JSON_parse (JSON_stringify m)) = Inr m"
  by (simp add: JSON_parse_stringify asExportMetadata_def)

section \<open>The export coordinator: what a run writes\<close>

lemma emit_simps [simp]:
  "trace (emit ev s) = trace s @ [ev]"
  "registry (emit ev s) = registry s"
  "files (emit ev s) = files s"
  by (simp_all add: emit_def)

lemma Registry_get_emit [simp]: "Registry_get (emit ev s) k = Registry_get s k"
  by (simp add: Registry_get_def)

lemma isRunning_emit [simp]: "isRunning (emit ev s) k = isRunning s k"
  by (simp add: isRunning_def)

lemma toExport_iff:
  "filter (shouldExport env s) ALL_EMULATORS = [] \<longleftrightarrow> \<not> isRunning s FIRESTORE"
  by (simp add: shouldExport_def ALL_EMULATORS_def ALL_SERVICE_EMULATORS_def
      IMPORT_EXPORT_EMULATORS_def)

lemma shouldExport_FIRESTORE [simp]: "shouldExport env s FIRESTORE = isRunning s FIRESTORE"
  by (simp add: shouldExport_def IMPORT_EXPORT_EMULATORS_def)

lemma exportFirestore_cases:
  assumes "isRunning s FIRESTORE"
  obtains inst s1 where "Registry_get s FIRESTORE = Some inst"
    and "trace s1 = trace s @ [ApiRequest
            \<lparr>request_method = ''POST'',
             request_path = ''/emulator/v1/projects/'' @ projectId @ '':export'',
             request_origin = ''http://'' @ host (getInfo inst) @ '':'' @
                string_of_nat (port (getInfo inst)),
             body_database = ''projects/'' @ projectId @ ''/databases/(default)'',
             body_export_directory = exportPath,
             body_export_name = ''firestore_export''\<rparr>]"
    and "registry s1 = registry s" and "files s1 = files s"
    and "exportFirestore env projectId exportPath s = (Inr (), s1) \<or>
         exportFirestore env projectId exportPath s = (Inl RequestFailed, s1)"
proof -
  from assms obtain inst where i: "Registry_get s FIRESTORE = Some inst"
    by (auto simp: isRunning_def)
  show thesis
    by (rule that [OF i, of "snd (exportFirestore env projectId exportPath s)"])
       (simp_all add: exportFirestore_def i Let_def)
qed

lemma exportAll_running:
  assumes "isRunning s FIRESTORE"
  shows "exportAll env projectId exportPath s =
     await (exportFirestore env projectId exportPath s) (\<lambda>_ s1.
       fs_writeFileSync env (path_join [exportPath, METADATA_FILE_NAME])
         (JSON_stringify
            \<lparr>version = Some (CLI_VERSION env), firestore = Some ''firestore_export''\<rparr>) s1)"
proof -
  have "filter (shouldExport env s) ALL_EMULATORS \<noteq> []"
    using assms by (simp add: toExport_iff)
  then show ?thesis
    using assms
    by (cases "exportFirestore env projectId exportPath s")
       (auto simp: exportAll_def exportAll_firestore_def await_def split: sum.splits)
qed

lemma firestore_running_isRunning: "isRunning firestore_running FIRESTORE"
  by (simp add: isRunning_def Registry_get_def firestore_running_def local_hub_def
      local_firestore_def)

text \<open>
  C5. If no export-capable kind is running in the registry, exportAll fails with the
  error whose message is "No running emulators support import/export." and leaves the
  state as it was: no request is sent and no file is written, the metadata file included.
\<close>

theorem exportAll_nothing_exportable:
  assumes "\<And>e. e \<in> set IMPORT_EXPORT_EMULATORS \<Longrightarrow> \<not> isRunning s e"
  shows "exportAll env projectId exportPath s = (Inl NoExportableEmulators, s) \<and>
         error_message NoExportableEmulators =
           Some ''No running emulators support import/export.''"
proof -
  have "\<not> isRunning s FIRESTORE"
    using assms [of FIRESTORE] by (simp add: IMPORT_EXPORT_EMULATORS_def)
  then have "filter (shouldExport env s) ALL_EMULATORS = []"
    by (simp add: toExport_iff)
  then show ?thesis
    by (simp add: exportAll_def)
qed

theorem exportAll_nothing_exportable_witness:
  "exportAll quiet_env ''demo'' ''/data/export'' hub_running =
     (Inl NoExportableEmulators, hub_running)"
  using exportAll_nothing_exportable [of hub_running quiet_env "''demo''" "''/data/export''"]
  by (simp add: IMPORT_EXPORT_EMULATORS_def isRunning_def Registry_get_def hub_running_def
      local_hub_def)



lemma exportAll_success:
  assumes "exportAll env projectId exportPath s = (Inr (), s')"
  shows "isRunning s FIRESTORE \<and> fst (exportFirestore env projectId exportPath s) = Inr () \<and>
    fs_writable env (path_join [exportPath, METADATA_FILE_NAME]) \<and>
    files s' = (files s)(path_join [exportPath, METADATA_FILE_NAME] \<mapsto>
      JSON_stringify \<lparr>version = Some (CLI_VERSION env), firestore = Some ''firestore_export''\<rparr>)"
proof (cases "isRunning s FIRESTORE")
  case False
  then have "filter (shouldExport env s) ALL_EMULATORS = []"
    by (simp add: toExport_iff)
  with assms show ?thesis
    by (simp add: exportAll_def)
next
  case True
  from exportFirestore_cases [OF True, of projectId exportPath env]
  obtain s1 where s1: "files s1 = files s"
    and r: "exportFirestore env projectId exportPath s = (Inr (), s1) \<or>
         exportFirestore env projectId exportPath s = (Inl RequestFailed, s1)"
    by metis
  from r assms True s1 show ?thesis
    by (auto simp: exportAll_running await_def fs_writeFileSync_def Let_def split: if_splits)
qed

lemma exportAll_succeeds:
  assumes "isRunning s FIRESTORE"
    and "fst (exportFirestore env projectId exportPath s) = Inr ()"
    and "fs_writable env (path_join [exportPath, METADATA_FILE_NAME])"
  shows "fst (exportAll env projectId exportPath s) = Inr ()"
  using assms
  by (cases "exportFirestore env projectId exportPath s")
     (simp add: exportAll_running await_def fs_writeFileSync_def Let_def)

text \<open>
  C6. When the Firestore emulator is running, its export call succeeds and the metadata
  file can be written, exportAll returns and the metadata file holds the serialisation of
  the metadata whose \<open>firestore\<close> property is the fixed name getExportName gives,
  \<^verbatim>\<open>firestore_export\<close>; parsing the serialisation and reading it as an ExportMetadata gives
  that same metadata back.
\<close>
theorem exportAll_metadata_roundtrip:
  assumes "isRunning s FIRESTORE"
    and "fst (exportFirestore env projectId exportPath s) = Inr ()"
    and "fs_writable env (path_join [exportPath, METADATA_FILE_NAME])"
  shows "\<exists>s' m. exportAll env projectId exportPath s = (Inr (), s') \<and>
           m = \<lparr>version = Some (CLI_VERSION env), firestore = Some ''firestore_export''\<rparr> \<and>
           getExportName FIRESTORE = Inr ''firestore_export'' \<and>
           files s' (path_join [exportPath, METADATA_FILE_NAME]) = Some (JSON_stringify m) \<and>
           map_sum id asExportMetadata (JSON_parse (JSON_stringify m)) = Inr m"
proof -
  from exportAll_succeeds [OF assms]
  obtain s' where s': "exportAll env projectId exportPath s = (Inr (), s')"
    by (cases "exportAll env projectId exportPath s") auto
  from exportAll_success [OF s'] show ?thesis
    by (simp add: s' asExportMetadata_parse_stringify)
qed

theorem exportAll_metadata_roundtrip_witness:
  "fst (exportAll quiet_env ''demo'' ''/data/export'' firestore_running) = Inr () \<and>
   files (snd (exportAll quiet_env ''demo'' ''/data/export'' firestore_running))
     ''/data/export/metadata.json'' = Some exported_metadata \<and>
   map_sum id asExportMetadata (JSON_parse exported_metadata) =
     Inr \<lparr>version = Some ''7.13.0'', firestore = Some ''firestore_export''\<rparr>"
proof -
  have f: "fst (exportFirestore quiet_env ''demo'' ''/data/export'' firestore_running) = Inr ()"
    by (simp add: exportFirestore_def Registry_get_def firestore_running_def local_hub_def
        local_firestore_def quiet_env_def Let_def)
  have w: "fs_writable quiet_env (path_join [''/data/export'', METADATA_FILE_NAME])"
    by (simp add: quiet_env_def)
  have p: "path_join [''/data/export'', METADATA_FILE_NAME] = ''/data/export/metadata.json''"
    by (simp add: path_join_def path_normalize_def normalizeString_def isAbsolute_def
        METADATA_FILE_NAME_def)
  have v: "CLI_VERSION quiet_env = ''7.13.0''"
    by (simp add: quiet_env_def)
  from exportAll_metadata_roundtrip [OF firestore_running_isRunning f w] show ?thesis
    unfolding p v exported_metadata_def by auto
qed

text \<open>
  C9. getExportName returns a name for FIRESTORE and throws for every other kind; so the
  metadata file of every exportAll that returns is an object with the keys \<open>version\<close>
  and \<open>firestore\<close> and no other, the latter holding that name.
\<close>
theorem getExportName_firestore_only:
  "getExportName FIRESTORE = Inr ''firestore_export'' \<and>
   (\<forall>e. e \<noteq> FIRESTORE \<longrightarrow> getExportName e = Inl (ExportNameNotDefined e)) \<and>
   (\<forall>s'. exportAll env projectId exportPath s = (Inr (), s') \<longrightarrow>
      (\<exists>t obj. files s' (path_join [exportPath, METADATA_FILE_NAME]) = Some t \<and>
         JSON_parse t = Inr obj \<and> dom obj = {''version'', ''firestore''} \<and>
         obj ''firestore'' = Some ''firestore_export''))"
proof (intro conjI allI impI)
  show "getExportName FIRESTORE = Inr ''firestore_export''"
    by simp
next
  fix e :: Emulators
  assume "e \<noteq> FIRESTORE"
  then show "getExportName e = Inl (ExportNameNotDefined e)"
    by (cases e) simp_all
next
  fix s'
  assume "exportAll env projectId exportPath s = (Inr (), s')"
  from exportAll_success [OF this] show "\<exists>t obj. files s' (path_join [exportPath, METADATA_FILE_NAME]) = Some t \<and>
         JSON_parse t = Inr obj \<and> dom obj = {''version'', ''firestore''} \<and>
         obj ''firestore'' = Some ''firestore_export''"
    by (auto simp: JSON_parse_stringify dom_def)
qed

theorem getExportName_firestore_only_witness:
  "getExportName DATABASE = Inl (ExportNameNotDefined DATABASE) \<and>
   (\<exists>t obj. files (snd (exportAll quiet_env ''demo'' ''/data/export'' firestore_running))
        (path_join [''/data/export'', METADATA_FILE_NAME]) = Some t \<and>
      JSON_parse t = Inr obj \<and> dom obj = {''version'', ''firestore''} \<and>
      obj ''firestore'' = Some ''firestore_export'')"
proof -
  have f: "fst (exportFirestore quiet_env ''demo'' ''/data/export'' firestore_running) = Inr ()"
    by (simp add: exportFirestore_def Registry_get_def firestore_running_def local_hub_def
        local_firestore_def quiet_env_def Let_def)
  have w: "fs_writable quiet_env (path_join [''/data/export'', METADATA_FILE_NAME])"
    by (simp add: quiet_env_def)
  have "fst (exportAll quiet_env ''demo'' ''/data/export'' firestore_running) = Inr ()"
    by (rule exportAll_succeeds [OF firestore_running_isRunning f w])
  then have ok: "exportAll quiet_env ''demo'' ''/data/export'' firestore_running =
      (Inr (), snd (exportAll quiet_env ''demo'' ''/data/export'' firestore_running))"
    by (cases "exportAll quiet_env ''demo'' ''/data/export'' firestore_running") simp
  have d: "DATABASE \<noteq> FIRESTORE"
    by simp
  from getExportName_firestore_only [of quiet_env "''demo''" "''/data/export''" firestore_running] ok d
  show ?thesis
    by blast
qed

section \<open>The registry and the shutdown\<close>

lemma Registry_get_None: "Registry_get s k = None \<longleftrightarrow> (\<forall>i\<in>set (registry s). getName i \<noteq> k)"
  by (auto simp: Registry_get_def find_None_iff)

lemma Registry_get_Some:
  "Registry_get s k = Some i \<Longrightarrow> i \<in> set (registry s) \<and> getName i = k"
  by (auto simp: Registry_get_def find_Some_iff)

lemma Registry_get_trace_update [simp]:
  "Registry_get (s\<lparr>trace := t\<rparr>) k = Registry_get s k"
  by (simp add: Registry_get_def)

lemma isRunning_iff: "isRunning s k \<longleftrightarrow> k \<in> set (listRunning s)"
  by (auto simp: isRunning_def Registry_get_None listRunning_def)

lemma Registry_stop_ok:
  assumes "\<And>i. i \<in> set (registry s) \<Longrightarrow> getName i = k \<Longrightarrow> instance_stop env i"
  shows "Registry_stop env k s =
    (Inr (), s\<lparr>registry := filter (\<lambda>i. getName i \<noteq> k) (registry s),
               trace := trace s @ [RegistryStop k]\<rparr>)"
proof (cases "Registry_get s k")
  case None
  then have "filter (\<lambda>i. getName i \<noteq> k) (registry s) = registry s"
    by (simp add: Registry_get_None)
  with None show ?thesis
    by (simp add: Registry_stop_def Let_def emit_def)
next
  case (Some i)
  with assms Registry_get_Some [OF Some] show ?thesis
    by (simp add: Registry_stop_def Let_def emit_def)
qed

lemma Registry_stop_failed:
  assumes "Registry_stop env k s = (Inl e, s')"
  shows "e = StopFailed k \<and> s' = emit (RegistryStop k) s \<and>
    (\<exists>i\<in>set (registry s). getName i = k \<and> \<not> instance_stop env i)"
  using assms
  by (auto simp: Registry_stop_def Let_def split: option.splits if_splits
      dest: Registry_get_Some)

lemma stop_each_ok:
  assumes "\<And>i. i \<in> set (registry s) \<Longrightarrow> instance_stop env i"
  shows "stop_each env names s =
    (Inr (), s\<lparr>registry := filter (\<lambda>i. getName i \<notin> set names) (registry s),
               trace := trace s @ map RegistryStop names\<rparr>)"
  using assms
proof (induction names arbitrary: s)
  case Nil
  then show ?case by simp
next
  case (Cons k names)
  let ?s1 = "s\<lparr>registry := filter (\<lambda>i. getName i \<noteq> k) (registry s),
               trace := trace s @ [RegistryStop k]\<rparr>"
  have 1: "Registry_stop env k s = (Inr (), ?s1)"
    by (rule Registry_stop_ok) (simp add: Cons.prems)
  have 2: "stop_each env names ?s1 =
    (Inr (), ?s1\<lparr>registry := filter (\<lambda>i. getName i \<notin> set names) (registry ?s1),
               trace := trace ?s1 @ map RegistryStop names\<rparr>)"
    by (rule Cons.IH) (simp add: Cons.prems)
  have "filter (\<lambda>i. getName i \<notin> set names) (filter (\<lambda>i. getName i \<noteq> k) (registry s)) =
      filter (\<lambda>i. getName i \<notin> set (k # names)) (registry s)"
    by (auto intro: filter_cong)
  then show ?case
    by (simp add: 1 2 await_def)
qed

lemma stop_each_failed:
  "stop_each env names s = (Inl e, s') \<Longrightarrow>
     files s' = files s \<and>
     (\<exists>i\<in>set (registry s'). e = StopFailed (getName i) \<and> \<not> instance_stop env i) \<and>
     (\<exists>evs. trace s' = trace s @ evs \<and> attempts evs = [])"
proof (induction names arbitrary: s)
  case Nil
  then show ?case by simp
next
  case (Cons k names)
  show ?case
  proof (cases "Registry_stop env k s")
    case (Pair r s1)
    show ?thesis
    proof (cases r)
      case (Inl e')
      with Pair Cons.prems have "e' = e" "s1 = s'"
        by (simp_all add: await_def)
      with Registry_stop_failed [of env k s e s'] Pair Inl show ?thesis
        by auto
    next
      case (Inr u)
      with Pair Cons.prems have rest: "stop_each env names s1 = (Inl e, s')"
        by (simp add: await_def)
      have s1: "files s1 = files s" "trace s1 = trace s @ [RegistryStop k]"
        using Pair Inr by (auto simp: Registry_stop_def Let_def split: option.splits if_splits)
      from Cons.IH [OF rest] s1 show ?thesis
        by auto
    qed
  qed
qed

lemma cleanShutdown_ok:
  assumes "\<And>i. i \<in> set (registry s) \<Longrightarrow> instance_stop env i"
  shows "cleanShutdown env s =
    (Inr True, s\<lparr>registry := [], trace := trace s @ map RegistryStop (listRunning s)\<rparr>)"
proof -
  have "filter (\<lambda>i. getName i \<notin> set (listRunning s)) (registry s) = []"
    by (auto simp: listRunning_def filter_empty_conv)
  then show ?thesis
    by (simp add: cleanShutdown_def stop_each_ok [OF assms] await_def)
qed

lemma cleanShutdown_result:
  "cleanShutdown env s = (r, s') \<Longrightarrow>
     r = Inr True \<or> (\<exists>i\<in>set (registry s'). r = Inl (StopFailed (getName i)) \<and> \<not> instance_stop env i)"
  by (cases "stop_each env (listRunning s) s")
     (auto simp: cleanShutdown_def await_def split: sum.splits dest: stop_each_failed)

lemma find_filter_keep: "(\<And>x. P x \<Longrightarrow> Q x) \<Longrightarrow> find P (filter Q xs) = find P xs"
  by (induction xs) auto

lemma Registry_get_filter:
  "k \<noteq> a \<Longrightarrow>
     Registry_get (s\<lparr>registry := filter (\<lambda>i. getName i \<noteq> a) (registry s)\<rparr>) k =
     Registry_get s k"
  by (auto simp: Registry_get_def intro!: find_filter_keep)

lemma Registry_get_filter_same:
  "Registry_get (s\<lparr>registry := filter (\<lambda>i. getName i \<noteq> a) (registry s)\<rparr>) a = None"
  by (simp add: Registry_get_None)

lemma Registry_stop_first_ok:
  assumes "\<And>j. Registry_get s k = Some j \<Longrightarrow> instance_stop env j"
  shows "Registry_stop env k s =
    (Inr (), s\<lparr>registry := filter (\<lambda>i. getName i \<noteq> k) (registry s),
               trace := trace s @ [RegistryStop k]\<rparr>)"
proof (cases "Registry_get s k")
  case None
  then have "filter (\<lambda>i. getName i \<noteq> k) (registry s) = registry s"
    by (simp add: Registry_get_None)
  with None show ?thesis
    by (simp add: Registry_stop_def Let_def emit_def)
next
  case (Some i)
  with assms show ?thesis
    by (simp add: Registry_stop_def Let_def emit_def)
qed

lemma stop_each_first_ok:
  assumes "\<And>k j. k \<in> set names \<Longrightarrow> Registry_get s k = Some j \<Longrightarrow> instance_stop env j"
  shows "stop_each env names s =
    (Inr (), s\<lparr>registry := filter (\<lambda>i. getName i \<notin> set names) (registry s),
               trace := trace s @ map RegistryStop names\<rparr>)"
  using assms
proof (induction names arbitrary: s)
  case Nil
  then show ?case by simp
next
  case (Cons a names)
  let ?s1 = "s\<lparr>registry := filter (\<lambda>i. getName i \<noteq> a) (registry s),
               trace := trace s @ [RegistryStop a]\<rparr>"
  have 1: "Registry_stop env a s = (Inr (), ?s1)"
    using Cons.prems by (intro Registry_stop_first_ok) auto
  have 2: "stop_each env names ?s1 =
    (Inr (), ?s1\<lparr>registry := filter (\<lambda>i. getName i \<notin> set names) (registry ?s1),
               trace := trace ?s1 @ map RegistryStop names\<rparr>)"
  proof (rule Cons.IH)
    fix k j
    assume k: "k \<in> set names" and g: "Registry_get ?s1 k = Some j"
    show "instance_stop env j"
    proof (cases "k = a")
      case True
      with g show ?thesis
        by (simp add: Registry_get_filter_same)
    next
      case False
      with g have "Registry_get s k = Some j"
        by (simp add: Registry_get_filter)
      with k show ?thesis
        by (intro Cons.prems [of k j]) simp_all
    qed
  qed
  have "filter (\<lambda>i. getName i \<notin> set names) (filter (\<lambda>i. getName i \<noteq> a) (registry s)) =
      filter (\<lambda>i. getName i \<notin> set (a # names)) (registry s)"
    by (auto intro: filter_cong)
  then show ?case
    by (simp add: 1 2 await_def)
qed

lemma stop_each_append:
  "stop_each env (xs @ ys) s =
     await (stop_each env xs s) (\<lambda>_ s1. stop_each env ys s1)"
  by (induction xs arbitrary: s)
     (auto simp: await_def split: prod.splits sum.splits)

lemma stop_each_throws:
  assumes pre: "\<And>k' j. k' \<in> set pre \<Longrightarrow> Registry_get s k' = Some j \<Longrightarrow> instance_stop env j"
    and k: "k \<notin> set pre" "Registry_get s k = Some i" "\<not> instance_stop env i"
  shows "stop_each env (pre @ k # post) s =
    (Inl (StopFailed k),
     s\<lparr>registry := filter (\<lambda>j. getName j \<notin> set pre) (registry s),
       trace := trace s @ map RegistryStop pre @ [RegistryStop k]\<rparr>)"
proof -
  let ?s1 = "s\<lparr>registry := filter (\<lambda>i. getName i \<notin> set pre) (registry s),
               trace := trace s @ map RegistryStop pre\<rparr>"
  have 1: "stop_each env pre s = (Inr (), ?s1)"
    by (rule stop_each_first_ok) (rule pre)
  have "Registry_get ?s1 k = Registry_get s k"
    using k(1) by (auto simp: Registry_get_def intro!: find_filter_keep)
  with k have "Registry_stop env k ?s1 = (Inl (StopFailed k), emit (RegistryStop k) ?s1)"
    by (simp add: Registry_stop_def Let_def)
  then show ?thesis
    by (simp add: stop_each_append 1 await_def emit_def)
qed

lemma cleanShutdown_throws:
  assumes "listRunning s = pre @ k # post"
    and "\<And>k' j. k' \<in> set pre \<Longrightarrow> Registry_get s k' = Some j \<Longrightarrow> instance_stop env j"
    and "k \<notin> set pre" "Registry_get s k = Some i" "\<not> instance_stop env i"
  shows "cleanShutdown env s =
    (Inl (StopFailed k),
     s\<lparr>registry := filter (\<lambda>j. getName j \<notin> set pre) (registry s),
       trace := trace s @ map RegistryStop pre @ [RegistryStop k]\<rparr>)"
  by (simp add: cleanShutdown_def assms(1) stop_each_throws [OF assms(2-5)] await_def)

lemma first_failing_stop:
  assumes "\<exists>k\<in>set names. \<exists>j. Registry_get s k = Some j \<and> \<not> instance_stop env j"
  obtains pre k post i where "names = pre @ k # post" "k \<notin> set pre"
    "Registry_get s k = Some i" "\<not> instance_stop env i"
    "\<And>k' j. k' \<in> set pre \<Longrightarrow> Registry_get s k' = Some j \<Longrightarrow> instance_stop env j"
proof -
  from assms have "\<exists>k\<in>set names. \<exists>j. Registry_get s k = Some j \<and> \<not> instance_stop env j"
    by simp
  from split_list_first_prop [OF this]
  obtain pre k post where n: "names = pre @ k # post"
    and f: "\<exists>j. Registry_get s k = Some j \<and> \<not> instance_stop env j"
    and p: "\<forall>k'\<in>set pre. \<not> (\<exists>j. Registry_get s k' = Some j \<and> \<not> instance_stop env j)"
    by blast
  from f obtain i where i: "Registry_get s k = Some i" "\<not> instance_stop env i"
    by blast
  from p i have "k \<notin> set pre"
    by blast
  with n i p show thesis
    by (intro that [of pre k post i]) blast+
qed


lemma cleanShutdown_cases:
  obtains (returned)
      "\<And>k j. k \<in> set (listRunning s) \<Longrightarrow> Registry_get s k = Some j \<Longrightarrow> instance_stop env j"
      "cleanShutdown env s =
         (Inr True, s\<lparr>registry := [], trace := trace s @ map RegistryStop (listRunning s)\<rparr>)"
  | (thrown) pre k post i where "listRunning s = pre @ k # post" "k \<notin> set pre"
      "Registry_get s k = Some i" "\<not> instance_stop env i"
      "cleanShutdown env s =
         (Inl (StopFailed k),
          s\<lparr>registry := filter (\<lambda>j. getName j \<notin> set pre) (registry s),
            trace := trace s @ map RegistryStop pre @ [RegistryStop k]\<rparr>)"
proof (cases "\<exists>k\<in>set (listRunning s). \<exists>j. Registry_get s k = Some j \<and> \<not> instance_stop env j")
  case True
  from first_failing_stop [OF True] obtain pre k post i where
    f: "listRunning s = pre @ k # post" "k \<notin> set pre" "Registry_get s k = Some i"
      "\<not> instance_stop env i"
    and p: "\<And>k' j. k' \<in> set pre \<Longrightarrow> Registry_get s k' = Some j \<Longrightarrow> instance_stop env j"
    by blast
  show thesis
    by (rule thrown [OF f]) (rule cleanShutdown_throws [OF f(1) p f(2-4)])
next
  case False
  then have ok: "\<And>k j. k \<in> set (listRunning s) \<Longrightarrow> Registry_get s k = Some j \<Longrightarrow>
      instance_stop env j"
    by blast
  have "filter (\<lambda>i. getName i \<notin> set (listRunning s)) (registry s) = []"
    by (auto simp: listRunning_def filter_empty_conv)
  then have "cleanShutdown env s =
      (Inr True, s\<lparr>registry := [], trace := trace s @ map RegistryStop (listRunning s)\<rparr>)"
    by (simp add: cleanShutdown_def stop_each_first_ok [OF ok] await_def)
  with ok show thesis
    by (rule returned)
qed

text \<open>
  C8, as the claim states it, fails: cleanShutdown has no handler around the stop of an
  instance, so with the hub registered and refusing to stop, the failure of that stop
  comes out of cleanShutdown, which does not return \<open>true\<close>.
\<close>

theorem cleanShutdown_counterexample:
  "cleanShutdown stubborn_env hub_running =
     (Inl (StopFailed HUB), hub_running\<lparr>trace := [RegistryStop HUB]\<rparr>)"
  by (simp add: cleanShutdown_def listRunning_def hub_running_def local_hub_def await_def
      Registry_stop_def Registry_get_def stubborn_env_def busy_env_def quiet_env_def emit_def)

text \<open>
  C8, amended. cleanShutdown returns \<open>true\<close> whenever the stop of every registered
  instance succeeds, and then the registry is empty and the names were stopped in the
  order of listRunning; called when nothing is running it returns \<open>true\<close> and changes
  nothing. It has no handler: it throws at the first name of listRunning whose instance
  refuses to stop. The names before that one were stopped and unregistered, in order,
  the stop of that name is the last one issued, the names after it are not stopped and
  stay registered with it, and what comes out of cleanShutdown is the failure of that
  stop. So whenever a running instance refuses to stop, cleanShutdown throws the failure
  of the stop of an instance that is still registered and refuses to stop; and in any
  case it either returns \<open>true\<close> or throws such a failure.
\<close>

theorem cleanShutdown_best_effort:
  "((\<forall>i\<in>set (registry s). instance_stop env i) \<longrightarrow>
      cleanShutdown env s =
        (Inr True, s\<lparr>registry := [], trace := trace s @ map RegistryStop (listRunning s)\<rparr>)) \<and>
   (registry s = [] \<longrightarrow> cleanShutdown env s = (Inr True, s)) \<and>
   (listRunning s = pre @ k # post \<and> k \<notin> set pre \<and>
    (\<forall>k'\<in>set pre. \<forall>j. Registry_get s k' = Some j \<longrightarrow> instance_stop env j) \<and>
    Registry_get s k = Some i \<and> \<not> instance_stop env i \<longrightarrow>
      cleanShutdown env s =
        (Inl (StopFailed k),
         s\<lparr>registry := filter (\<lambda>j. getName j \<notin> set pre) (registry s),
           trace := trace s @ map RegistryStop pre @ [RegistryStop k]\<rparr>)) \<and>
   ((\<exists>n\<in>set (listRunning s). \<exists>j. Registry_get s n = Some j \<and> \<not> instance_stop env j) \<longrightarrow>
      (\<exists>ks n rest j. listRunning s = ks @ n # rest \<and> n \<notin> set ks \<and>
         cleanShutdown env s =
           (Inl (StopFailed n),
            s\<lparr>registry := filter (\<lambda>j. getName j \<notin> set ks) (registry s),
              trace := trace s @ map RegistryStop ks @ [RegistryStop n]\<rparr>) \<and>
         Registry_get (snd (cleanShutdown env s)) n = Some j \<and> \<not> instance_stop env j)) \<and>
   (fst (cleanShutdown env s) = Inr True \<or>
    (\<exists>i\<in>set (registry (snd (cleanShutdown env s))).
       fst (cleanShutdown env s) = Inl (StopFailed (getName i)) \<and> \<not> instance_stop env i))"
proof (intro conjI impI)
  show "fst (cleanShutdown env s) = Inr True \<or>
    (\<exists>i\<in>set (registry (snd (cleanShutdown env s))).
       fst (cleanShutdown env s) = Inl (StopFailed (getName i)) \<and> \<not> instance_stop env i)"
    using cleanShutdown_result [of env s "fst (cleanShutdown env s)" "snd (cleanShutdown env s)"]
    by simp
next
  assume "\<forall>i\<in>set (registry s). instance_stop env i"
  then show "cleanShutdown env s =
        (Inr True, s\<lparr>registry := [], trace := trace s @ map RegistryStop (listRunning s)\<rparr>)"
    by (intro cleanShutdown_ok) simp
next
  assume "registry s = []"
  then show "cleanShutdown env s = (Inr True, s)"
    by (simp add: cleanShutdown_def listRunning_def await_def)
next
  assume h: "listRunning s = pre @ k # post \<and> k \<notin> set pre \<and>
    (\<forall>k'\<in>set pre. \<forall>j. Registry_get s k' = Some j \<longrightarrow> instance_stop env j) \<and>
    Registry_get s k = Some i \<and> \<not> instance_stop env i"
  then show "cleanShutdown env s =
        (Inl (StopFailed k),
         s\<lparr>registry := filter (\<lambda>j. getName j \<notin> set pre) (registry s),
           trace := trace s @ map RegistryStop pre @ [RegistryStop k]\<rparr>)"
    by (intro cleanShutdown_throws [of s pre k post env i]) auto
next
  assume h: "\<exists>n\<in>set (listRunning s). \<exists>j. Registry_get s n = Some j \<and> \<not> instance_stop env j"
  show "\<exists>ks n rest j. listRunning s = ks @ n # rest \<and> n \<notin> set ks \<and>
         cleanShutdown env s =
           (Inl (StopFailed n),
            s\<lparr>registry := filter (\<lambda>j. getName j \<notin> set ks) (registry s),
              trace := trace s @ map RegistryStop ks @ [RegistryStop n]\<rparr>) \<and>
         Registry_get (snd (cleanShutdown env s)) n = Some j \<and> \<not> instance_stop env j"
  proof (cases rule: cleanShutdown_cases [where s = s and env = env])
    case returned
    with h show ?thesis
      by blast
  next
    case (thrown pre k post i)
    have "Registry_get (s\<lparr>registry := filter (\<lambda>j. getName j \<notin> set pre) (registry s)\<rparr>) k =
        Registry_get s k"
      using thrown(2) by (auto simp: Registry_get_def intro!: find_filter_keep)
    with thrown have "Registry_get (snd (cleanShutdown env s)) k = Some i"
      by simp
    with thrown show ?thesis
      by blast
  qed
qed

theorem cleanShutdown_best_effort_witness:
  "cleanShutdown quiet_env firestore_running =
     (Inr True,
      firestore_running\<lparr>registry := [], trace := [RegistryStop HUB, RegistryStop FIRESTORE]\<rparr>) \<and>
   cleanShutdown stubborn_env fresh = (Inr True, fresh) \<and>
   cleanShutdown firestore_stuck_env all_running =
     (Inl (StopFailed FIRESTORE),
      all_running\<lparr>registry := [local_firestore, local_hosting],
        trace := [RegistryStop HUB, RegistryStop FIRESTORE]\<rparr>) \<and>
   (\<exists>n j. fst (cleanShutdown stubborn_env hub_running) = Inl (StopFailed n) \<and>
      Registry_get (snd (cleanShutdown stubborn_env hub_running)) n = Some j \<and>
      \<not> instance_stop stubborn_env j)"
proof -
  have 1: "\<forall>i\<in>set (registry firestore_running). instance_stop quiet_env i"
    by (simp add: quiet_env_def)
  have 2: "registry fresh = []"
    by (simp add: fresh_def)
  have 5: "listRunning firestore_running = [HUB, FIRESTORE]" "trace firestore_running = []"
    by (simp_all add: listRunning_def firestore_running_def local_hub_def local_firestore_def)
  from cleanShutdown_best_effort [of firestore_running quiet_env] 1 5
  have a: "cleanShutdown quiet_env firestore_running =
     (Inr True,
      firestore_running\<lparr>registry := [], trace := [RegistryStop HUB, RegistryStop FIRESTORE]\<rparr>)"
    by simp
  from cleanShutdown_best_effort [of fresh stubborn_env] 2
  have b: "cleanShutdown stubborn_env fresh = (Inr True, fresh)"
    by blast
  have 6: "listRunning all_running = [HUB] @ FIRESTORE # [HOSTING]" "FIRESTORE \<notin> set [HUB]"
      "\<forall>k'\<in>set [HUB]. \<forall>j. Registry_get all_running k' = Some j \<longrightarrow>
         instance_stop firestore_stuck_env j"
      "Registry_get all_running FIRESTORE = Some local_firestore"
      "\<not> instance_stop firestore_stuck_env local_firestore"
    by (simp_all add: listRunning_def Registry_get_def all_running_def local_hub_def
        local_firestore_def local_hosting_def firestore_stuck_env_def quiet_env_def)
  from cleanShutdown_best_effort
    [of all_running firestore_stuck_env "[HUB]" FIRESTORE "[HOSTING]" local_firestore] 6
  have "cleanShutdown firestore_stuck_env all_running =
        (Inl (StopFailed FIRESTORE),
         all_running\<lparr>registry := filter (\<lambda>j. getName j \<notin> set [HUB]) (registry all_running),
           trace := trace all_running @ map RegistryStop [HUB] @ [RegistryStop FIRESTORE]\<rparr>)"
    by blast
  then have c: "cleanShutdown firestore_stuck_env all_running =
     (Inl (StopFailed FIRESTORE),
      all_running\<lparr>registry := [local_firestore, local_hosting],
        trace := [RegistryStop HUB, RegistryStop FIRESTORE]\<rparr>)"
    by (simp add: all_running_def local_hub_def local_firestore_def local_hosting_def)
  have 8: "\<exists>n\<in>set (listRunning hub_running). \<exists>j. Registry_get hub_running n = Some j \<and>
      \<not> instance_stop stubborn_env j"
    by (simp add: listRunning_def Registry_get_def hub_running_def local_hub_def
        stubborn_env_def busy_env_def quiet_env_def)
  from cleanShutdown_best_effort [of hub_running stubborn_env] 8
  obtain ks n rest j where "cleanShutdown stubborn_env hub_running =
      (Inl (StopFailed n),
       hub_running\<lparr>registry := filter (\<lambda>j. getName j \<notin> set ks) (registry hub_running),
         trace := trace hub_running @ map RegistryStop ks @ [RegistryStop n]\<rparr>)"
    "Registry_get (snd (cleanShutdown stubborn_env hub_running)) n = Some j"
    "\<not> instance_stop stubborn_env j"
    by blast
  then have d: "\<exists>n j. fst (cleanShutdown stubborn_env hub_running) = Inl (StopFailed n) \<and>
      Registry_get (snd (cleanShutdown stubborn_env hub_running)) n = Some j \<and>
      \<not> instance_stop stubborn_env j"
    by (intro exI [of _ n] exI [of _ j]) simp
  show ?thesis
    by (intro conjI a b c d)
qed

section \<open>The shared start procedure and the shape of startAll\<close>

lemma Registry_stop_returned:
  assumes "Registry_stop env k s = (Inr u, s')"
  shows "s' = s\<lparr>registry := filter (\<lambda>i. getName i \<noteq> k) (registry s),
               trace := trace s @ [RegistryStop k]\<rparr>"
proof (cases "Registry_get s k")
  case None
  then have "filter (\<lambda>i. getName i \<noteq> k) (registry s) = registry s"
    by (simp add: Registry_get_None)
  with None assms show ?thesis
    by (auto simp: Registry_stop_def Let_def emit_def)
next
  case (Some i)
  with assms show ?thesis
    by (auto simp: Registry_stop_def Let_def emit_def split: if_splits)
qed

lemma stop_each_returned:
  "stop_each env names s = (Inr u, s') \<Longrightarrow>
     s' = s\<lparr>registry := filter (\<lambda>i. getName i \<notin> set names) (registry s),
            trace := trace s @ map RegistryStop names\<rparr>"
proof (induction names arbitrary: s)
  case Nil
  then show ?case by simp
next
  case (Cons k names)
  obtain r s1 where 1: "Registry_stop env k s = (r, s1)"
    by (cases "Registry_stop env k s")
  with Cons.prems obtain v where r: "r = Inr v" and 2: "stop_each env names s1 = (Inr u, s')"
    by (cases r) (simp_all add: await_def)
  have f: "filter (\<lambda>i. getName i \<notin> set names) (filter (\<lambda>i. getName i \<noteq> k) (registry s)) =
      filter (\<lambda>i. getName i \<notin> set (k # names)) (registry s)"
    by (auto intro: filter_cong)
  from Registry_stop_returned [OF 1 [unfolded r]] Cons.IH [OF 2] show ?case
    by (simp add: f)
qed

lemma cleanShutdown_returned:
  assumes "cleanShutdown env s = (Inr b, s')"
  shows "s' = s\<lparr>registry := [], trace := trace s @ map RegistryStop (listRunning s)\<rparr>"
proof -
  from assms obtain u where "stop_each env (listRunning s) s = (Inr u, s')"
    by (cases "stop_each env (listRunning s) s")
       (auto simp: cleanShutdown_def await_def split: sum.splits)
  from stop_each_returned [OF this] show ?thesis
    by (auto simp: listRunning_def filter_empty_conv)
qed

lemma cleanShutdown_failed:
  assumes "cleanShutdown env s = (Inl e, s')"
  shows "files s' = files s \<and>
     (\<exists>i\<in>set (registry s'). e = StopFailed (getName i) \<and> \<not> instance_stop env i) \<and>
     (\<exists>evs. trace s' = trace s @ evs \<and> attempts evs = [])"
proof -
  from assms have "stop_each env (listRunning s) s = (Inl e, s')"
    by (cases "stop_each env (listRunning s) s")
       (auto simp: cleanShutdown_def await_def split: sum.splits)
  then show ?thesis
    by (rule stop_each_failed)
qed

lemma attempts_append [simp]: "attempts (xs @ ys) = attempts xs @ attempts ys"
  by (induction xs rule: attempts.induct) simp_all

lemma attempts_stops [simp]: "attempts (map RegistryStop ks) = []"
  by (induction ks) simp_all

lemma startEmulator_cases:
  fixes env i s
  defines "n \<equiv> getName i"
  obtains
    (started) "checkPortOpen env (port (getInfo i)) (host (getInfo i))"
      "\<not> isRunning s n" "instance_start env i"
      "startEmulator env i s =
         (Inr (), s\<lparr>registry := registry s @ [i],
                     trace := trace s @ [Track n, RegistryStart n]\<rparr>)"
  | (refused) e where "checkPortOpen env (port (getInfo i)) (host (getInfo i))"
      "e = AlreadyRunning n \<or> e = StartFailed n"
      "startEmulator env i s = (Inl e, s\<lparr>trace := trace s @ [Track n, RegistryStart n]\<rparr>)"
  | (taken) "\<not> checkPortOpen env (port (getInfo i)) (host (getInfo i))"
      "startEmulator env i s =
         (Inl (PortTaken n),
          s\<lparr>registry := [], trace := trace s @ Track n # map RegistryStop (listRunning s)\<rparr>)"
  | (stuck) j s' evs where "\<not> checkPortOpen env (port (getInfo i)) (host (getInfo i))"
      "startEmulator env i s = (Inl (StopFailed (getName j)), s')"
      "j \<in> set (registry s')" "\<not> instance_stop env j" "files s' = files s"
      "trace s' = trace s @ Track n # evs" "attempts evs = []"
proof (cases "checkPortOpen env (port (getInfo i)) (host (getInfo i))")
  case True
  then have eq: "startEmulator env i s = Registry_start env i (emit (Track n) s)"
    by (simp add: startEmulator_def Let_def n_def)
  show thesis
  proof (cases "isRunning s n")
    case r: True
    show thesis
      by (rule refused [of "AlreadyRunning n"])
         (use True r in \<open>simp_all add: eq Registry_start_def Let_def n_def emit_def isRunning_def\<close>)
  next
    case r: False
    show thesis
    proof (cases "instance_start env i")
      case st: True
      show thesis
        by (rule started)
           (use True r st in \<open>simp_all add: eq Registry_start_def Let_def n_def emit_def isRunning_def\<close>)
    next
      case st: False
      show thesis
        by (rule refused [of "StartFailed n"])
           (use True r st in \<open>simp_all add: eq Registry_start_def Let_def n_def emit_def isRunning_def\<close>)
    qed
  qed
next
  case False
  then have eq: "startEmulator env i s =
      await (cleanShutdown env (emit (Track n) s)) (\<lambda>_ s2. (Inl (PortTaken n), s2))"
    by (simp add: startEmulator_def Let_def n_def)
  obtain r s' where cs: "cleanShutdown env (emit (Track n) s) = (r, s')"
    by (cases "cleanShutdown env (emit (Track n) s)")
  show thesis
  proof (cases r)
    case (Inr b)
    from cleanShutdown_returned [OF cs [unfolded Inr]]
    have "s' = s\<lparr>registry := [],
         trace := trace s @ Track n # map RegistryStop (listRunning s)\<rparr>"
      by (simp add: listRunning_def emit_def)
    then show thesis
      by (intro taken False) (simp add: eq cs Inr await_def)
  next
    case (Inl e)
    from cleanShutdown_failed [OF cs [unfolded Inl]]
    obtain j evs where "j \<in> set (registry s')" "e = StopFailed (getName j)"
      "\<not> instance_stop env j" "files s' = files s" "trace s' = trace s @ Track n # evs"
      "attempts evs = []"
      by auto
    then show thesis
      by (intro stuck [of j s' evs] False) (simp_all add: eq cs Inl await_def)
  qed
qed

lemma quiet_run_refl [simp]: "quiet_run s s"
  by (simp add: quiet_run_def)

lemma quiet_run_trans: "quiet_run s s1 \<Longrightarrow> quiet_run s1 s2 \<Longrightarrow> quiet_run s s2"
  by (auto simp: quiet_run_def)

lemma behaved_await:
  assumes "behaved env addr ks1 s m" and "\<And>x s1. behaved env addr ks2 s1 (k x s1)"
  shows "behaved env addr (ks1 @ ks2) s (await m k)"
proof (cases m)
  case (Pair r s1)
  show ?thesis
  proof (cases r)
    case (Inl e)
    with Pair assms(1) show ?thesis
      by (auto simp: behaved_def await_def no_shutdown_def rolled_back_def attempted_def
          surfaces_def stuck_def)
  next
    case (Inr x)
    have "behaved env addr ks2 s1 (k x s1)"
      by (rule assms(2))
    with Pair Inr assms(1) show ?thesis
      unfolding behaved_def await_def no_shutdown_def rolled_back_def attempted_def
        surfaces_def stuck_def
      by (cases "k x s1"; cases "fst (k x s1)")
         (auto intro: quiet_run_trans simp: list_all_iff)
  qed
qed

lemma behaved_startEmulator:
  assumes "getInfo i = addr (getName i)"
  shows "behaved env addr [getName i] s (startEmulator env i s)"
  using assms
  by (cases env i s rule: startEmulator_cases)
     (auto simp: behaved_def no_shutdown_def rolled_back_def attempted_def quiet_run_def
        surfaces_def port_open_def stuck_def)

lemma behaved_block:
  "block_shape env k (addr k) selected s m \<Longrightarrow>
     behaved env addr (if selected then [k] else []) s m"
  using behaved_startEmulator [of _ addr env s]
  by (auto simp: block_shape_def behaved_def no_shutdown_def rolled_back_def attempted_def
      surfaces_def split: if_splits)

lemma filterEmulatorTargets_targets [simp]:
  "filterEmulatorTargets (options\<lparr>targets := ts\<rparr>) = filterEmulatorTargets options"
  by (simp add: filterEmulatorTargets_def)

lemma shouldStart_targets [simp]:
  "shouldStart (options\<lparr>targets := ts\<rparr>) k = shouldStart options k"
  by (simp add: shouldStart_def)

lemma info_eta [simp]: "\<lparr>host = host a, port = port a\<rparr> = (a :: EmulatorInfo)"
  by (cases a) simp

lemma block_shape_skip: "\<not> selected \<Longrightarrow> block_shape env k addr selected s (Inr (), s)"
  by (simp add: block_shape_def)

lemma block_shape_precondition:
  "selected \<Longrightarrow> e \<in> {NoProject, TypeError, InvalidInspectionPort, PubsubWithoutProject} \<Longrightarrow>
     block_shape env k addr selected s (Inl e, s)"
  by (simp add: block_shape_def)

lemma block_shape_start:
  "selected \<Longrightarrow> getName i = k \<Longrightarrow> getInfo i = addr \<Longrightarrow>
     block_shape env k addr selected s (startEmulator env i s)"
  by (auto simp: block_shape_def)

lemma startAll_functions_shape:
  "block_shape env FUNCTIONS (getAddress env FUNCTIONS options) (shouldStart options FUNCTIONS) s
     (startAll_functions env options s)"
  by (auto simp: startAll_functions_def getProjectId_def Let_def
      split: option.splits sum.splits
      intro!: block_shape_skip block_shape_precondition block_shape_start)

lemma firestore_seed_result:
  "firestore_seed env options exportMetadata a = Inl e \<Longrightarrow> e = TypeError"
  "firestore_seed env options exportMetadata a = Inr a' \<Longrightarrow> host a' = host a \<and> port a' = port a"
  by (auto simp: firestore_seed_def Let_def split: option.splits if_splits)

lemma startAll_firestore_shape:
  "block_shape env FIRESTORE (getAddress env FIRESTORE options) (shouldStart options FIRESTORE) s
     (startAll_firestore env options projectId exportMetadata s)"
  by (auto simp: startAll_firestore_def Let_def split: sum.splits
      dest!: firestore_seed_result
      intro!: block_shape_skip block_shape_precondition block_shape_start)

lemma startAll_database_shape:
  "block_shape env DATABASE (getAddress env DATABASE options) (shouldStart options DATABASE) s
     (startAll_database env options projectId s)"
  by (auto simp: startAll_database_def Let_def
      intro!: block_shape_skip block_shape_precondition block_shape_start)

lemma startAll_hosting_shape:
  "block_shape env HOSTING (getAddress env HOSTING options) (shouldStart options HOSTING) s
     (startAll_hosting env options s)"
  by (auto simp: startAll_hosting_def Let_def
      intro!: block_shape_skip block_shape_precondition block_shape_start)

lemma startAll_pubsub_shape:
  "block_shape env PUBSUB (getAddress env PUBSUB options) (shouldStart options PUBSUB) s
     (startAll_pubsub env options projectId s)"
  by (auto simp: startAll_pubsub_def Let_def split: option.splits
      intro!: block_shape_skip block_shape_precondition block_shape_start)

lemma JSON_parse_error: "JSON_parse t = Inl e \<Longrightarrow> e = SyntaxError"
  by (auto simp: JSON_parse_def split: list.splits if_splits option.splits)

lemma startAll_metadata_result:
  "startAll_metadata env options s = (r, s') \<Longrightarrow>
     s' = s \<and> (\<forall>e. r = Inl e \<longrightarrow> e = SyntaxError \<or> (\<exists>p. e = FileNotFound p))"
  by (auto simp: startAll_metadata_def fs_readFileSync_def Let_def
      split: option.splits if_splits sum.splits dest: JSON_parse_error)

lemma behaved_metadata: "behaved env addr [] s (startAll_metadata env options s)"
proof -
  obtain r s' where m: "startAll_metadata env options s = (r, s')"
    by (cases "startAll_metadata env options s")
  from startAll_metadata_result [OF m] show ?thesis
    by (cases r)
       (auto simp: m behaved_def no_shutdown_def rolled_back_def attempted_def surfaces_def)
qed

lemma connect_each_result:
  "connect_each env names s = (r, s') \<Longrightarrow>
     files s' = files s \<and> registry s' = registry s \<and>
     (\<exists>evs. trace s' = trace s @ evs \<and> attempts evs = [] \<and> filter is_stop evs = []) \<and>
     (\<forall>e. r = Inl e \<longrightarrow> (\<exists>k. e = ConnectFailed k))"
proof (induction names arbitrary: s)
  case Nil
  then show ?case by auto
next
  case (Cons k names)
  show ?case
  proof (cases "Registry_get s k")
    case None
    with Cons.prems have "connect_each env names s = (r, s')"
      by simp
    from Cons.IH [OF this] show ?thesis .
  next
    case (Some i)
    show ?thesis
    proof (cases "instance_connect env i")
      case True
      with Some Cons.prems have "connect_each env names (emit (Connect k) s) = (r, s')"
        by (simp add: Let_def)
      from Cons.IH [OF this] show ?thesis
        by auto
    next
      case False
      with Some Cons.prems show ?thesis
        by (auto simp: Let_def)
    qed
  qed
qed

lemma behaved_connect: "behaved env addr [] s (connect_each env names s)"
proof -
  obtain r s' where m: "connect_each env names s = (r, s')"
    by (cases "connect_each env names s")
  from connect_each_result [OF m] show ?thesis
    by (cases r)
       (auto simp: m behaved_def no_shutdown_def rolled_back_def attempted_def quiet_run_def
          surfaces_def)
qed

lemma resolved_address_service:
  "k \<noteq> HUB \<Longrightarrow>
     resolved_address env options k =
       getAddress env k (options\<lparr>targets := filterEmulatorTargets options\<rparr>)"
  by (simp add: resolved_address_def Let_def)

lemma behaved_functions:
  "behaved env (resolved_address env options)
     (if shouldStart options FUNCTIONS then [FUNCTIONS] else []) s
     (startAll_functions env (options\<lparr>targets := filterEmulatorTargets options\<rparr>) s)"
  using behaved_block [of env FUNCTIONS "resolved_address env options", OF
      startAll_functions_shape [of env "options\<lparr>targets := filterEmulatorTargets options\<rparr>" s,
        folded resolved_address_service [of FUNCTIONS env options, simplified]]]
  by simp

lemma behaved_firestore:
  "behaved env (resolved_address env options)
     (if shouldStart options FIRESTORE then [FIRESTORE] else []) s
     (startAll_firestore env (options\<lparr>targets := filterEmulatorTargets options\<rparr>)
        projectId exportMetadata s)"
  using behaved_block [of env FIRESTORE "resolved_address env options", OF
      startAll_firestore_shape [of env "options\<lparr>targets := filterEmulatorTargets options\<rparr>" s,
        folded resolved_address_service [of FIRESTORE env options, simplified]]]
  by simp

lemma behaved_database:
  "behaved env (resolved_address env options)
     (if shouldStart options DATABASE then [DATABASE] else []) s
     (startAll_database env (options\<lparr>targets := filterEmulatorTargets options\<rparr>) projectId s)"
  using behaved_block [of env DATABASE "resolved_address env options", OF
      startAll_database_shape [of env "options\<lparr>targets := filterEmulatorTargets options\<rparr>" s,
        folded resolved_address_service [of DATABASE env options, simplified]]]
  by simp

lemma behaved_hosting:
  "behaved env (resolved_address env options)
     (if shouldStart options HOSTING then [HOSTING] else []) s
     (startAll_hosting env (options\<lparr>targets := filterEmulatorTargets options\<rparr>) s)"
  using behaved_block [of env HOSTING "resolved_address env options", OF
      startAll_hosting_shape [of env "options\<lparr>targets := filterEmulatorTargets options\<rparr>" s,
        folded resolved_address_service [of HOSTING env options, simplified]]]
  by simp

lemma behaved_pubsub:
  "behaved env (resolved_address env options)
     (if shouldStart options PUBSUB then [PUBSUB] else []) s
     (startAll_pubsub env (options\<lparr>targets := filterEmulatorTargets options\<rparr>) projectId s)"
  using behaved_block [of env PUBSUB "resolved_address env options", OF
      startAll_pubsub_shape [of env "options\<lparr>targets := filterEmulatorTargets options\<rparr>" s,
        folded resolved_address_service [of PUBSUB env options, simplified]]]
  by simp

lemma selected_services:
  "filter sel ALL_SERVICE_EMULATORS =
     [] @ (if sel FUNCTIONS then [FUNCTIONS] else []) @ (if sel FIRESTORE then [FIRESTORE] else []) @
     (if sel DATABASE then [DATABASE] else []) @ (if sel HOSTING then [HOSTING] else []) @
     (if sel PUBSUB then [PUBSUB] else []) @ []"
  by (simp add: ALL_SERVICE_EMULATORS_def)

text \<open>The port \<^verbatim>\<open>portfinder\<close> finds for the hub.\<close>

lemma startAll_no_port:
  assumes "pf_getPortPromise env
      (host (getAddress env HUB (options\<lparr>targets := filterEmulatorTargets options\<rparr>)))
      (port (getAddress env HUB (options\<lparr>targets := filterEmulatorTargets options\<rparr>)))
      (port (getAddress env HUB (options\<lparr>targets := filterEmulatorTargets options\<rparr>)) + 100) =
    None"
  shows "startAll env options s = (Inl NoPortAvailable, s)"
  using assms
  by (simp add: startAll_def Let_def getProjectId_def split: option.splits)

lemma startAll_await:
  assumes "pf_getPortPromise env
      (host (getAddress env HUB (options\<lparr>targets := filterEmulatorTargets options\<rparr>)))
      (port (getAddress env HUB (options\<lparr>targets := filterEmulatorTargets options\<rparr>)))
      (port (getAddress env HUB (options\<lparr>targets := filterEmulatorTargets options\<rparr>)) + 100) =
    Some hubPort"
  obtains tail where
    "startAll env options s =
       await (startEmulator env (hub_instance env options hubPort) s) tail"
    "\<And>u s1. behaved env (resolved_address env options)
       (filter (shouldStart options) ALL_SERVICE_EMULATORS) s1 (tail u s1)"
proof -
  define opts where "opts = options\<lparr>targets := filterEmulatorTargets options\<rparr>"
  define tail where "tail = (\<lambda>(u::unit) s1.
      await (startAll_metadata env opts s1) (\<lambda>exportMetadata s2.
      await (startAll_functions env opts s2) (\<lambda>_ s3.
      await (startAll_firestore env opts (project options) exportMetadata s3) (\<lambda>_ s4.
      await (startAll_database env opts (project options) s4) (\<lambda>_ s5.
      await (startAll_hosting env opts s5) (\<lambda>_ s6.
      await (startAll_pubsub env opts (project options) s6) (\<lambda>_ s7.
      connect_each env (listRunning s7) s7)))))))"
  have eq: "startAll env options s =
      await (startEmulator env (hub_instance env options hubPort) s) tail"
    using assms
    by (simp add: startAll_def Let_def getProjectId_def opts_def hub_instance_def
        tail_def split: option.splits)
  have tail: "behaved env (resolved_address env options)
      (filter (shouldStart options) ALL_SERVICE_EMULATORS) s1 (tail u s1)" for u s1
    unfolding tail_def selected_services opts_def
    by (intro behaved_await behaved_metadata behaved_connect behaved_functions
        behaved_firestore behaved_database behaved_hosting behaved_pubsub)
  from eq tail show thesis
    by (rule that)
qed

lemma hub_instance_simps [simp]:
  "getName (hub_instance env options hubPort) = HUB"
  "port (getInfo (hub_instance env options hubPort)) = hubPort"
  "host (getInfo (hub_instance env options hubPort)) =
     host (getAddress env HUB (options\<lparr>targets := filterEmulatorTargets options\<rparr>))"
  by (simp_all add: hub_instance_def Let_def)

lemma startAll_behaved:
  "behaved env (resolved_address env options)
     (HUB # filter (shouldStart options) ALL_SERVICE_EMULATORS) s (startAll env options s)"
proof (cases "pf_getPortPromise env
      (host (getAddress env HUB (options\<lparr>targets := filterEmulatorTargets options\<rparr>)))
      (port (getAddress env HUB (options\<lparr>targets := filterEmulatorTargets options\<rparr>)))
      (port (getAddress env HUB (options\<lparr>targets := filterEmulatorTargets options\<rparr>)) + 100)")
  case None
  show ?thesis
    by (simp add: startAll_no_port [OF None] behaved_def no_shutdown_def rolled_back_def
        attempted_def surfaces_def)
next
  case (Some hubPort)
  from startAll_await [OF Some, of s] obtain tail where
    eq: "startAll env options s =
      await (startEmulator env (hub_instance env options hubPort) s) tail"
    and tail: "\<And>u s1. behaved env (resolved_address env options)
      (filter (shouldStart options) ALL_SERVICE_EMULATORS) s1 (tail u s1)"
    by blast
  have "getInfo (hub_instance env options hubPort) = resolved_address env options HUB"
    by (simp add: resolved_address_def hub_instance_def Let_def Some)
  then have "behaved env (resolved_address env options) [getName (hub_instance env options hubPort)] s
      (startEmulator env (hub_instance env options hubPort) s)"
    by (intro behaved_startEmulator) simp
  from behaved_await [OF this tail] show ?thesis
    by (simp add: eq)
qed

section \<open>Runs of startAll\<close>

lemma events_since_append [simp]: "trace s' = trace s @ evs \<Longrightarrow> events_since s s' = evs"
  by (simp add: events_since_def)

lemma startEmulator_started:
  assumes "checkPortOpen env (port (getInfo i)) (host (getInfo i))"
    and "getName i \<notin> set (listRunning s)" and "instance_start env i"
  shows "startEmulator env i s =
     (Inr (), s\<lparr>registry := registry s @ [i],
                 trace := trace s @ [Track (getName i), RegistryStart (getName i)]\<rparr>)"
proof -
  have "\<not> isRunning s (getName i)"
    using assms(2) by (simp add: isRunning_iff)
  then show ?thesis
    using assms(1,3)
    by (simp add: startEmulator_def Registry_start_def Let_def emit_def isRunning_def)
qed

lemma listRunning_update [simp]:
  "listRunning (s\<lparr>registry := r, trace := t\<rparr>) = map getName r"
  by (simp add: listRunning_def)

lemma connect_each_listRunning [simp]:
  "listRunning (snd (connect_each env names s)) = listRunning s"
proof -
  obtain r s' where m: "connect_each env names s = (r, s')"
    by (cases "connect_each env names s")
  from connect_each_result [OF m] show ?thesis
    by (simp add: m listRunning_def)
qed

lemma reach_all: "list_all (\<lambda>k. R k \<and> S k) ks \<Longrightarrow> reach R S ks = ks"
  by (induction ks) auto

lemma reach_append_all:
  "list_all (\<lambda>k. R k \<and> S k) ks \<Longrightarrow> reach R S (ks @ ks') = ks @ reach R S ks'"
  by (induction ks) auto

lemma reach_append_stop:
  "\<not> list_all (\<lambda>k. R k \<and> S k) ks \<Longrightarrow> reach R S (ks @ ks') = reach R S ks"
  by (induction ks) auto

lemma reach_cong: "(\<And>k. k \<in> set ks \<Longrightarrow> S k = S' k) \<Longrightarrow> reach R S ks = reach R S' ks"
  by (induction ks) auto

lemma advances_await:
  assumes m: "advances R P True ks1 s m"
    and f: "\<And>x s1. m = (Inr x, s1) \<Longrightarrow> files s1 = files s \<Longrightarrow> advances R P ok ks2 s1 (f x s1)"
  shows "advances R P ok (ks1 @ ks2) s (await m f)"
  unfolding advances_def
proof (intro impI)
  let ?S = "\<lambda>s k. P k \<and> k \<notin> set (listRunning s)"
  let ?G = "\<lambda>s k. R k \<and> P k \<and> k \<notin> set (listRunning s)"
  assume d: "distinct (ks1 @ ks2)"
  with m obtain evs1 rest1 where fl: "files (snd m) = files s"
    and tr: "trace (snd m) = trace s @ evs1"
    and at: "attempts evs1 = reach R (?S s) ks1 @ rest1"
    and good: "list_all (?G s) ks1 \<Longrightarrow>
      attempts evs1 = ks1 \<and> listRunning (snd m) = listRunning s @ ks1 \<and> \<not> isl (fst m)"
    by (auto simp: advances_def)
  obtain r s1 where ms: "m = (r, s1)"
    by (cases m)
  show "files (snd (await m f)) = files s \<and>
    (\<exists>evs. trace (snd (await m f)) = trace s @ evs \<and>
       (\<exists>rest. attempts evs = reach R (?S s) (ks1 @ ks2) @ rest) \<and>
       (list_all (?G s) (ks1 @ ks2) \<longrightarrow>
          attempts evs = ks1 @ ks2 \<and>
          listRunning (snd (await m f)) = listRunning s @ ks1 @ ks2 \<and>
          (ok \<longrightarrow> \<not> isl (fst (await m f)))))"
  proof (cases r)
    case (Inl e)
    then have aw: "await m f = (Inl e, s1)"
      by (simp add: ms await_def)
    from good Inl ms have ng: "\<not> list_all (?G s) ks1"
      by auto
    then have "reach R (?S s) (ks1 @ ks2) = reach R (?S s) ks1"
      by (intro reach_append_stop) simp
    with fl tr at ng show ?thesis
      unfolding aw by (auto simp: ms)
  next
    case (Inr x)
    then have aw: "await m f = f x s1"
      by (simp add: ms await_def)
    from fl have "files s1 = files s"
      by (simp add: ms)
    from f [OF ms [unfolded Inr] this] d
    obtain evs2 rest2 where fl2: "files (snd (f x s1)) = files s1"
      and tr2: "trace (snd (f x s1)) = trace s1 @ evs2"
      and at2: "attempts evs2 = reach R (?S s1) ks2 @ rest2"
      and good2: "list_all (?G s1) ks2 \<Longrightarrow>
        attempts evs2 = ks2 \<and> listRunning (snd (f x s1)) = listRunning s1 @ ks2 \<and>
        (ok \<longrightarrow> \<not> isl (fst (f x s1)))"
      by (auto simp: advances_def)
    have tr': "trace (snd (f x s1)) = trace s @ evs1 @ evs2"
      using tr tr2 by (simp add: ms)
    have fl': "files (snd (f x s1)) = files s"
      using fl fl2 by (simp add: ms)
    show ?thesis
    proof (cases "list_all (?G s) ks1")
      case True
      with good have lr: "listRunning s1 = listRunning s @ ks1" and a1: "attempts evs1 = ks1"
        by (simp_all add: ms)
      have same: "?S s1 k = ?S s k" if "k \<in> set ks2" for k
        using that d by (auto simp: lr)
      have "reach R (?S s1) ks2 = reach R (?S s) ks2"
        by (rule reach_cong) (rule same)
      moreover have "reach R (?S s) (ks1 @ ks2) = ks1 @ reach R (?S s) ks2"
        using True by (intro reach_append_all) simp
      ultimately have 1: "attempts (evs1 @ evs2) = reach R (?S s) (ks1 @ ks2) @ rest2"
        using a1 at2 by simp
      have 2: "attempts (evs1 @ evs2) = ks1 @ ks2 \<and>
          listRunning (snd (f x s1)) = listRunning s @ ks1 @ ks2 \<and>
          (ok \<longrightarrow> \<not> isl (fst (f x s1)))"
        if g: "list_all (?G s) (ks1 @ ks2)"
      proof -
        from g same have "list_all (?G s1) ks2"
          by (auto simp: list_all_iff)
        from good2 [OF this] a1 lr show ?thesis
          by simp
      qed
      from tr' fl' 1 2 show ?thesis
        unfolding aw by blast
    next
      case False
      then have "reach R (?S s) (ks1 @ ks2) = reach R (?S s) ks1"
        by (intro reach_append_stop) simp
      then have "attempts (evs1 @ evs2) = reach R (?S s) (ks1 @ ks2) @ rest1 @ attempts evs2"
        using at by simp
      with tr' fl' False show ?thesis
        unfolding aw by auto
    qed
  qed
qed


lemma startEmulator_run:
  "files (snd (startEmulator env i s)) = files s \<and>
   (\<exists>evs. trace (snd (startEmulator env i s)) = trace s @ Track (getName i) # evs \<and>
      attempts evs = [])"
  by (cases rule: startEmulator_cases [of env i s]) auto

lemma advances_startEmulator:
  assumes "P (getName i) \<Longrightarrow>
      port_open env (getInfo i) \<and> (\<forall>j. getName j = getName i \<longrightarrow> instance_start env j)"
  shows "advances R P True [getName i] s (startEmulator env i s)"
proof -
  from startEmulator_run [of env i s] obtain evs where
    fl: "files (snd (startEmulator env i s)) = files s"
    and tr: "trace (snd (startEmulator env i s)) = trace s @ Track (getName i) # evs"
    and at: "attempts evs = []"
    by blast
  have "\<exists>rest. attempts (Track (getName i) # evs) =
      reach R (\<lambda>k. P k \<and> k \<notin> set (listRunning s)) [getName i] @ rest"
    by (simp add: at)
  moreover have "listRunning (snd (startEmulator env i s)) = listRunning s @ [getName i] \<and>
      \<not> isl (fst (startEmulator env i s))"
    if "P (getName i)" "getName i \<notin> set (listRunning s)"
  proof -
    from assms that have "checkPortOpen env (port (getInfo i)) (host (getInfo i))"
        "instance_start env i"
      by (simp_all add: port_open_def)
    from startEmulator_started [OF this(1) that(2) this(2)] show ?thesis
      by (simp add: listRunning_def)
  qed
  ultimately show ?thesis
    unfolding advances_def using fl tr at by (intro impI conjI exI [of _ "Track (getName i) # evs"]) auto
qed

lemma advances_block:
  assumes shape: "block_shape env k addr selected s m"
    and go: "selected \<Longrightarrow> R k \<Longrightarrow>
      \<exists>i. getName i = k \<and> getInfo i = addr \<and> m = startEmulator env i s"
    and P: "P k \<Longrightarrow> port_open env addr \<and> (\<forall>j. getName j = k \<longrightarrow> instance_start env j)"
  shows "advances R P True (if selected then [k] else []) s m"
proof (cases selected)
  case False
  with shape show ?thesis
    by (simp add: block_shape_def advances_def)
next
  case True
  show ?thesis
  proof (cases "\<exists>i. getName i = k \<and> getInfo i = addr \<and> m = startEmulator env i s")
    case started: True
    then obtain i where i: "getName i = k" "getInfo i = addr" "m = startEmulator env i s"
      by blast
    have "advances R P True [getName i] s (startEmulator env i s)"
      using P by (intro advances_startEmulator) (simp add: i)
    with True show ?thesis
      by (simp add: i)
  next
    case False
    with True go have "\<not> R k"
      by blast
    moreover from False True shape obtain e where "m = (Inl e, s)"
      by (auto simp: block_shape_def)
    ultimately show ?thesis
      using True by (simp add: advances_def)
  qed
qed

lemma startAll_functions_go:
  assumes "shouldStart options FUNCTIONS" "project options \<noteq> None"
    "config_get options ''functions.source'' \<noteq> None"
    "truthy (inspectFunctions options) \<longrightarrow> parseInspectionPort env options \<noteq> None"
  shows "\<exists>i. getName i = FUNCTIONS \<and> getInfo i = getAddress env FUNCTIONS options \<and>
    startAll_functions env options s = startEmulator env i s"
  using assms
  by (auto simp: startAll_functions_def getProjectId_def Let_def split: option.splits
      intro!: exI [of _ "FunctionsEmulator _"])

lemma startAll_metadata_import:
  "startAll_metadata env options s = (Inr exportMetadata, s') \<Longrightarrow>
     firestore exportMetadata \<noteq> None \<Longrightarrow> import options \<noteq> None"
  by (cases "import options") (auto simp: startAll_metadata_def Let_def)

lemma startAll_firestore_go:
  assumes "shouldStart options FIRESTORE" "firestore exportMetadata \<noteq> None \<longrightarrow> import options \<noteq> None"
  shows "\<exists>i. getName i = FIRESTORE \<and> getInfo i = getAddress env FIRESTORE options \<and>
    startAll_firestore env options projectId exportMetadata s = startEmulator env i s"
proof -
  let ?a = "getAddress env FIRESTORE options"
  have "\<exists>args. firestore_seed env options exportMetadata
      \<lparr>host = host ?a, port = port ?a,
       firestore_projectId = projectId, firestore_auto_download = True,
       seed_from_export = None, firestore_rules = None\<rparr> = Inr args"
    using assms(2)
    by (cases "firestore exportMetadata"; cases "import options")
       (simp_all add: firestore_seed_def Let_def)
  then obtain args where a: "firestore_seed env options exportMetadata
      \<lparr>host = host ?a, port = port ?a,
       firestore_projectId = projectId, firestore_auto_download = True,
       seed_from_export = None, firestore_rules = None\<rparr> = Inr args"
    by blast
  from firestore_seed_result(2) [OF a] assms(1) show ?thesis
    by (auto simp: startAll_firestore_def Let_def a intro!: exI [of _ "FirestoreEmulator _"])
qed

lemma startAll_database_go:
  assumes "shouldStart options DATABASE"
  shows "\<exists>i. getName i = DATABASE \<and> getInfo i = getAddress env DATABASE options \<and>
    startAll_database env options projectId s = startEmulator env i s"
  using assms
  by (auto simp: startAll_database_def Let_def intro!: exI [of _ "DatabaseEmulator _"])

lemma startAll_hosting_go:
  assumes "shouldStart options HOSTING"
  shows "\<exists>i. getName i = HOSTING \<and> getInfo i = getAddress env HOSTING options \<and>
    startAll_hosting env options s = startEmulator env i s"
  using assms
  by (auto simp: startAll_hosting_def Let_def intro!: exI [of _ "HostingEmulator _"])

lemma startAll_pubsub_go:
  assumes "shouldStart options PUBSUB" "truthy projectId"
  shows "\<exists>i. getName i = PUBSUB \<and> getInfo i = getAddress env PUBSUB options \<and>
    startAll_pubsub env options projectId s = startEmulator env i s"
  using assms
  by (auto simp: startAll_pubsub_def truthy_def Let_def split: option.splits
      intro!: exI [of _ "PubsubEmulator _"])

lemma connect_each_ok:
  "\<forall>i. instance_connect env i \<Longrightarrow> fst (connect_each env names s) = Inr ()"
  by (induction names arbitrary: s) (auto simp: Let_def split: option.splits)

lemma advances_connect:
  assumes "ok \<Longrightarrow> \<forall>i. instance_connect env i"
  shows "advances R P ok [] s (connect_each env names s)"
proof -
  obtain r s' where m: "connect_each env names s = (r, s')"
    by (cases "connect_each env names s")
  from connect_each_result [OF m] connect_each_ok [of env names s] assms show ?thesis
    by (auto simp: m advances_def listRunning_def)
qed

lemma advances_functions:
  assumes R: "R FUNCTIONS \<Longrightarrow> project options \<noteq> None \<and>
      config_get options ''functions.source'' \<noteq> None \<and>
      (truthy (inspectFunctions options) \<longrightarrow>
         parseInspectionPort env (options\<lparr>targets := filterEmulatorTargets options\<rparr>) \<noteq> None)"
    and P: "\<And>k. P k \<Longrightarrow> port_open env (resolved_address env options k) \<and>
      (\<forall>j. getName j = k \<longrightarrow> instance_start env j)"
  shows "advances R P True (if shouldStart options FUNCTIONS then [FUNCTIONS] else []) s
    (startAll_functions env (options\<lparr>targets := filterEmulatorTargets options\<rparr>) s)"
proof (rule advances_block [where addr = "resolved_address env options FUNCTIONS" and env = env])
  show "block_shape env FUNCTIONS (resolved_address env options FUNCTIONS) (shouldStart options FUNCTIONS) s
      (startAll_functions env (options\<lparr>targets := filterEmulatorTargets options\<rparr>) s)"
    using startAll_functions_shape [of env "options\<lparr>targets := filterEmulatorTargets options\<rparr>" s]
    by (simp add: resolved_address_service)
  show "\<exists>i. getName i = FUNCTIONS \<and> getInfo i = resolved_address env options FUNCTIONS \<and>
      startAll_functions env (options\<lparr>targets := filterEmulatorTargets options\<rparr>) s = startEmulator env i s"
    if "shouldStart options FUNCTIONS" "R FUNCTIONS"
    using startAll_functions_go [of "options\<lparr>targets := filterEmulatorTargets options\<rparr>" env s] R that
    by (simp add: resolved_address_service)
  show "port_open env (resolved_address env options FUNCTIONS) \<and>
      (\<forall>j. getName j = FUNCTIONS \<longrightarrow> instance_start env j)" if "P FUNCTIONS"
    using that by (rule P)
qed

lemma advances_firestore:
  assumes R: "firestore exportMetadata \<noteq> None \<longrightarrow> import options \<noteq> None"
    and P: "\<And>k. P k \<Longrightarrow> port_open env (resolved_address env options k) \<and>
      (\<forall>j. getName j = k \<longrightarrow> instance_start env j)"
  shows "advances R P True (if shouldStart options FIRESTORE then [FIRESTORE] else []) s
    (startAll_firestore env (options\<lparr>targets := filterEmulatorTargets options\<rparr>) projectId exportMetadata s)"
proof (rule advances_block [where addr = "resolved_address env options FIRESTORE" and env = env])
  show "block_shape env FIRESTORE (resolved_address env options FIRESTORE) (shouldStart options FIRESTORE) s
      (startAll_firestore env (options\<lparr>targets := filterEmulatorTargets options\<rparr>) projectId exportMetadata s)"
    using startAll_firestore_shape [of env "options\<lparr>targets := filterEmulatorTargets options\<rparr>" s projectId exportMetadata]
    by (simp add: resolved_address_service)
  show "\<exists>i. getName i = FIRESTORE \<and> getInfo i = resolved_address env options FIRESTORE \<and>
      startAll_firestore env (options\<lparr>targets := filterEmulatorTargets options\<rparr>) projectId exportMetadata s = startEmulator env i s"
    if "shouldStart options FIRESTORE" "R FIRESTORE"
    using startAll_firestore_go [of "options\<lparr>targets := filterEmulatorTargets options\<rparr>" exportMetadata env projectId s] R that
    by (simp add: resolved_address_service)
  show "port_open env (resolved_address env options FIRESTORE) \<and>
      (\<forall>j. getName j = FIRESTORE \<longrightarrow> instance_start env j)" if "P FIRESTORE"
    using that by (rule P)
qed

lemma advances_database:
  assumes P: "\<And>k. P k \<Longrightarrow> port_open env (resolved_address env options k) \<and>
      (\<forall>j. getName j = k \<longrightarrow> instance_start env j)"
  shows "advances R P True (if shouldStart options DATABASE then [DATABASE] else []) s
    (startAll_database env (options\<lparr>targets := filterEmulatorTargets options\<rparr>) projectId s)"
proof (rule advances_block [where addr = "resolved_address env options DATABASE" and env = env])
  show "block_shape env DATABASE (resolved_address env options DATABASE) (shouldStart options DATABASE) s
      (startAll_database env (options\<lparr>targets := filterEmulatorTargets options\<rparr>) projectId s)"
    using startAll_database_shape [of env "options\<lparr>targets := filterEmulatorTargets options\<rparr>" s projectId]
    by (simp add: resolved_address_service)
  show "\<exists>i. getName i = DATABASE \<and> getInfo i = resolved_address env options DATABASE \<and>
      startAll_database env (options\<lparr>targets := filterEmulatorTargets options\<rparr>) projectId s = startEmulator env i s"
    if "shouldStart options DATABASE" "R DATABASE"
    using startAll_database_go [of "options\<lparr>targets := filterEmulatorTargets options\<rparr>" env projectId s] that
    by (simp add: resolved_address_service)
  show "port_open env (resolved_address env options DATABASE) \<and>
      (\<forall>j. getName j = DATABASE \<longrightarrow> instance_start env j)" if "P DATABASE"
    using that by (rule P)
qed

lemma advances_hosting:
  assumes P: "\<And>k. P k \<Longrightarrow> port_open env (resolved_address env options k) \<and>
      (\<forall>j. getName j = k \<longrightarrow> instance_start env j)"
  shows "advances R P True (if shouldStart options HOSTING then [HOSTING] else []) s
    (startAll_hosting env (options\<lparr>targets := filterEmulatorTargets options\<rparr>) s)"
proof (rule advances_block [where addr = "resolved_address env options HOSTING" and env = env])
  show "block_shape env HOSTING (resolved_address env options HOSTING) (shouldStart options HOSTING) s
      (startAll_hosting env (options\<lparr>targets := filterEmulatorTargets options\<rparr>) s)"
    using startAll_hosting_shape [of env "options\<lparr>targets := filterEmulatorTargets options\<rparr>" s]
    by (simp add: resolved_address_service)
  show "\<exists>i. getName i = HOSTING \<and> getInfo i = resolved_address env options HOSTING \<and>
      startAll_hosting env (options\<lparr>targets := filterEmulatorTargets options\<rparr>) s = startEmulator env i s"
    if "shouldStart options HOSTING" "R HOSTING"
    using startAll_hosting_go [of "options\<lparr>targets := filterEmulatorTargets options\<rparr>" env s] that
    by (simp add: resolved_address_service)
  show "port_open env (resolved_address env options HOSTING) \<and>
      (\<forall>j. getName j = HOSTING \<longrightarrow> instance_start env j)" if "P HOSTING"
    using that by (rule P)
qed

lemma advances_pubsub:
  assumes R: "R PUBSUB \<Longrightarrow> truthy projectId"
    and P: "\<And>k. P k \<Longrightarrow> port_open env (resolved_address env options k) \<and>
      (\<forall>j. getName j = k \<longrightarrow> instance_start env j)"
  shows "advances R P True (if shouldStart options PUBSUB then [PUBSUB] else []) s
    (startAll_pubsub env (options\<lparr>targets := filterEmulatorTargets options\<rparr>) projectId s)"
proof (rule advances_block [where addr = "resolved_address env options PUBSUB" and env = env])
  show "block_shape env PUBSUB (resolved_address env options PUBSUB) (shouldStart options PUBSUB) s
      (startAll_pubsub env (options\<lparr>targets := filterEmulatorTargets options\<rparr>) projectId s)"
    using startAll_pubsub_shape [of env "options\<lparr>targets := filterEmulatorTargets options\<rparr>" s projectId]
    by (simp add: resolved_address_service)
  show "\<exists>i. getName i = PUBSUB \<and> getInfo i = resolved_address env options PUBSUB \<and>
      startAll_pubsub env (options\<lparr>targets := filterEmulatorTargets options\<rparr>) projectId s = startEmulator env i s"
    if "shouldStart options PUBSUB" "R PUBSUB"
    using startAll_pubsub_go [of "options\<lparr>targets := filterEmulatorTargets options\<rparr>" projectId env s] R that
    by (simp add: resolved_address_service)
  show "port_open env (resolved_address env options PUBSUB) \<and>
      (\<forall>j. getName j = PUBSUB \<longrightarrow> instance_start env j)" if "P PUBSUB"
    using that by (rule P)
qed


lemma reach_none: "(\<And>k. k \<in> set ks \<Longrightarrow> \<not> R k) \<Longrightarrow> reach R S ks = []"
  by (cases ks) auto

lemma startAll_metadata_targets [simp]:
  "startAll_metadata env (options\<lparr>targets := ts\<rparr>) s = startAll_metadata env options s"
  by (simp add: startAll_metadata_def)

lemma startAll_metadata_files:
  "files s1 = files s \<Longrightarrow>
     fst (startAll_metadata env options s1) = fst (startAll_metadata env options s)"
  by (auto simp: startAll_metadata_def fs_readFileSync_def Let_def
      split: option.splits sum.splits)

lemma services_in_order:
  "filter sel ALL_SERVICE_EMULATORS =
     (if sel FUNCTIONS then [FUNCTIONS] else []) @ (if sel FIRESTORE then [FIRESTORE] else []) @
     (if sel DATABASE then [DATABASE] else []) @ (if sel HOSTING then [HOSTING] else []) @
     (if sel PUBSUB then [PUBSUB] else []) @ []"
  by (simp add: ALL_SERVICE_EMULATORS_def)

lemma advances_services:
  assumes md: "firestore exportMetadata \<noteq> None \<longrightarrow> import options \<noteq> None"
    and RF: "R FUNCTIONS \<Longrightarrow> project options \<noteq> None \<and>
      config_get options ''functions.source'' \<noteq> None \<and>
      (truthy (inspectFunctions options) \<longrightarrow>
         parseInspectionPort env (options\<lparr>targets := filterEmulatorTargets options\<rparr>) \<noteq> None)"
    and RP: "R PUBSUB \<Longrightarrow> truthy (project options)"
    and P: "\<And>k. P k \<Longrightarrow> port_open env (resolved_address env options k) \<and>
      (\<forall>j. getName j = k \<longrightarrow> instance_start env j)"
    and ok: "ok \<Longrightarrow> \<forall>i. instance_connect env i"
  shows "advances R P ok (filter (shouldStart options) ALL_SERVICE_EMULATORS) s
    (await (startAll_functions env (options\<lparr>targets := filterEmulatorTargets options\<rparr>) s) (\<lambda>_ s3.
     await (startAll_firestore env (options\<lparr>targets := filterEmulatorTargets options\<rparr>)
              (project options) exportMetadata s3) (\<lambda>_ s4.
     await (startAll_database env (options\<lparr>targets := filterEmulatorTargets options\<rparr>)
              (project options) s4) (\<lambda>_ s5.
     await (startAll_hosting env (options\<lparr>targets := filterEmulatorTargets options\<rparr>) s5) (\<lambda>_ s6.
     await (startAll_pubsub env (options\<lparr>targets := filterEmulatorTargets options\<rparr>)
              (project options) s6) (\<lambda>_ s7.
     connect_each env (listRunning s7) s7))))))"
  unfolding services_in_order
  by (intro advances_await advances_functions [OF RF P] advances_firestore [OF md P]
      advances_database [OF P] advances_hosting [OF P] advances_pubsub [OF RP P]
      advances_connect [OF ok])

lemma startAll_advances:
  "advances (ready env options s)
     (\<lambda>k. port_open env (resolved_address env options k) \<and>
        (\<forall>j. getName j = k \<longrightarrow> instance_start env j))
     ((\<forall>i. instance_connect env i) \<and> metadata_readable env options s)
     (HUB # filter (shouldStart options) ALL_SERVICE_EMULATORS) s (startAll env options s)"
proof (cases "pf_getPortPromise env
      (host (getAddress env HUB (options\<lparr>targets := filterEmulatorTargets options\<rparr>)))
      (port (getAddress env HUB (options\<lparr>targets := filterEmulatorTargets options\<rparr>)))
      (port (getAddress env HUB (options\<lparr>targets := filterEmulatorTargets options\<rparr>)) + 100)")
  case None
  then have "\<not> ready env options s HUB"
    by (simp add: ready_def Let_def)
  then show ?thesis
    by (simp add: startAll_no_port [OF None] advances_def)
next
  case (Some hubPort)
  let ?opts = "options\<lparr>targets := filterEmulatorTargets options\<rparr>"
  let ?R = "ready env options s"
  let ?P = "\<lambda>k. port_open env (resolved_address env options k) \<and>
        (\<forall>j. getName j = k \<longrightarrow> instance_start env j)"
  let ?ok = "(\<forall>i. instance_connect env i) \<and> metadata_readable env options s"
  let ?sel = "filter (shouldStart options) ALL_SERVICE_EMULATORS"
  define services where "services = (\<lambda>exportMetadata s2.
      await (startAll_functions env ?opts s2) (\<lambda>_ s3.
      await (startAll_firestore env ?opts (project options) exportMetadata s3) (\<lambda>_ s4.
      await (startAll_database env ?opts (project options) s4) (\<lambda>_ s5.
      await (startAll_hosting env ?opts s5) (\<lambda>_ s6.
      await (startAll_pubsub env ?opts (project options) s6) (\<lambda>_ s7.
      connect_each env (listRunning s7) s7))))))"
  have eq: "startAll env options s =
      await (startEmulator env (hub_instance env options hubPort) s) (\<lambda>_ s1.
      await (startAll_metadata env options s1) services)"
    using Some
    by (simp add: startAll_def Let_def getProjectId_def hub_instance_def services_def
        split: option.splits)
  have info: "getInfo (hub_instance env options hubPort) = resolved_address env options HUB"
    by (simp add: resolved_address_def hub_instance_def Let_def Some)
  have "advances ?R ?P True [getName (hub_instance env options hubPort)] s
      (startEmulator env (hub_instance env options hubPort) s)"
    by (intro advances_startEmulator) (simp add: info)
  then have hub: "advances ?R ?P True [HUB] s
      (startEmulator env (hub_instance env options hubPort) s)"
    by simp
  have tail: "advances ?R ?P ?ok ?sel s1 (await (startAll_metadata env options s1) services)"
    if fl: "files s1 = files s" for s1
  proof -
    obtain r s' where m: "startAll_metadata env options s1 = (r, s')"
      by (cases "startAll_metadata env options s1")
    from startAll_metadata_result [OF m] have s': "s' = s1"
      by simp
    from startAll_metadata_files [OF fl, of env options]
    have "fst (startAll_metadata env options s) = r"
      by (simp add: m)
    then have rd: "metadata_readable env options s \<longleftrightarrow> \<not> isl r"
      by (cases r) (simp_all add: metadata_readable_def)
    show ?thesis
    proof (cases r)
      case (Inl e)
      with rd have nr: "\<not> metadata_readable env options s"
        by simp
      have "\<not> ?R k" if "k \<in> set ?sel" for k
      proof -
        from that have "k \<in> set ALL_SERVICE_EMULATORS"
          by simp
        then have "k \<noteq> HUB"
          by (auto simp: ALL_SERVICE_EMULATORS_def)
        with nr show ?thesis
          by (cases k) (simp_all add: ready_def Let_def)
      qed
      then have none: "reach ?R S ?sel = []" and all: "list_all (\<lambda>k. ?R k \<and> Q k) ?sel \<Longrightarrow> ?sel = []"
        for S Q
        by (auto intro!: reach_none simp: list_all_iff filter_empty_conv)
      show ?thesis
        unfolding advances_def
        by (auto simp: m Inl s' await_def none nr dest: all)
    next
      case (Inr exportMetadata)
      with rd have rdy: "metadata_readable env options s"
        by simp
      from startAll_metadata_import [OF m [unfolded Inr]]
      have md: "firestore exportMetadata \<noteq> None \<longrightarrow> import options \<noteq> None"
        by blast
      have "advances ?R ?P ?ok ?sel s1 (services exportMetadata s1)"
        unfolding services_def
        by (rule advances_services [OF md])
           (auto simp: ready_def Let_def)
      then show ?thesis
        by (simp add: m Inr s' await_def)
    qed
  qed
  have "advances ?R ?P ?ok ([HUB] @ ?sel) s (startAll env options s)"
    unfolding eq by (rule advances_await [OF hub]) (rule tail)
  then show ?thesis
    by simp
qed

text \<open>
  C7. For every options value, the kinds startAll calls the shared start procedure for
  are, in order, a prefix of the hub followed by the selected services in the order
  FUNCTIONS, FIRESTORE, DATABASE, HOSTING, PUBSUB, and all of them when startAll returns.
  In particular, with the target subset {FIRESTORE, HOSTING}, nothing running before, no
  import, a port found for the hub, the three ports free and instances that start,
  listRunning afterwards is HUB, FIRESTORE, HOSTING, in that order. And the calls are
  made: the sequence of calls begins with the kinds of that list startAll is bound to
  reach, the ready ones up to and including the first that is not startable; when every
  kind of the list is ready and startable, one instance of each is registered behind
  those that were running, in that order, and startAll returns if moreover the export
  metadata is readable and every instance connects.
\<close>
theorem startAll_order:
  "(\<exists>rest. HUB # filter (shouldStart options) [FUNCTIONS, FIRESTORE, DATABASE, HOSTING, PUBSUB] =
      attempts (events_since s (snd (startAll env options s))) @ rest) \<and>
   (fst (startAll env options s) = Inr () \<longrightarrow>
      attempts (events_since s (snd (startAll env options s))) =
        HUB # filter (shouldStart options) [FUNCTIONS, FIRESTORE, DATABASE, HOSTING, PUBSUB]) \<and>
   (set (filterEmulatorTargets options) = {FIRESTORE, HOSTING} \<and> registry s = [] \<and>
    import options = None \<and>
    pf_getPortPromise env
      (host (getAddress env HUB (options\<lparr>targets := filterEmulatorTargets options\<rparr>)))
      (port (getAddress env HUB (options\<lparr>targets := filterEmulatorTargets options\<rparr>)))
      (port (getAddress env HUB (options\<lparr>targets := filterEmulatorTargets options\<rparr>)) + 100) =
      Some hubPort \<and>
    port_open env (resolved_address env options HUB) \<and>
    port_open env (resolved_address env options FIRESTORE) \<and>
    port_open env (resolved_address env options HOSTING) \<and>
    (\<forall>i. instance_start env i) \<longrightarrow>
      listRunning (snd (startAll env options s)) = [HUB, FIRESTORE, HOSTING]) \<and>
   (\<exists>rest. attempts (events_since s (snd (startAll env options s))) =
      reach (ready env options s) (startable env options s)
        (HUB # filter (shouldStart options) [FUNCTIONS, FIRESTORE, DATABASE, HOSTING, PUBSUB]) @ rest) \<and>
   (list_all (\<lambda>k. ready env options s k \<and> startable env options s k)
      (HUB # filter (shouldStart options) [FUNCTIONS, FIRESTORE, DATABASE, HOSTING, PUBSUB]) \<longrightarrow>
      listRunning (snd (startAll env options s)) =
        listRunning s @ HUB # filter (shouldStart options) [FUNCTIONS, FIRESTORE, DATABASE, HOSTING, PUBSUB] \<and>
      ((\<forall>i. instance_connect env i) \<and> metadata_readable env options s \<longrightarrow>
         fst (startAll env options s) = Inr ()))"
proof -
  let ?m = "startAll env options s"
  let ?P = "\<lambda>k. port_open env (resolved_address env options k) \<and>
        (\<forall>j. getName j = k \<longrightarrow> instance_start env j)"
  have d: "distinct (HUB # filter (shouldStart options) ALL_SERVICE_EMULATORS)"
    by (auto simp: ALL_SERVICE_EMULATORS_def)
  have S: "(\<lambda>k. ?P k \<and> k \<notin> set (listRunning s)) = startable env options s"
    by (auto simp: startable_def fun_eq_iff)
  have G: "(\<lambda>k. ready env options s k \<and> ?P k \<and> k \<notin> set (listRunning s)) =
      (\<lambda>k. ready env options s k \<and> startable env options s k)"
    by (auto simp: startable_def fun_eq_iff)
  from startAll_advances [of env options s] d
  obtain evs rest where tr: "trace (snd ?m) = trace s @ evs"
    and at: "attempts evs =
      reach (ready env options s) (\<lambda>k. ?P k \<and> k \<notin> set (listRunning s))
        (HUB # filter (shouldStart options) ALL_SERVICE_EMULATORS) @ rest"
    and good: "list_all (\<lambda>k. ready env options s k \<and> ?P k \<and> k \<notin> set (listRunning s))
        (HUB # filter (shouldStart options) ALL_SERVICE_EMULATORS) \<Longrightarrow>
      listRunning (snd ?m) = listRunning s @ HUB # filter (shouldStart options) ALL_SERVICE_EMULATORS \<and>
      ((\<forall>i. instance_connect env i) \<and> metadata_readable env options s \<longrightarrow> \<not> isl (fst ?m))"
    unfolding advances_def by blast
  have four: "\<exists>rest. attempts (events_since s (snd ?m)) =
      reach (ready env options s) (startable env options s)
        (HUB # filter (shouldStart options) [FUNCTIONS, FIRESTORE, DATABASE, HOSTING, PUBSUB]) @ rest"
    using at unfolding S ALL_SERVICE_EMULATORS_def events_since_append [OF tr] by blast
  have unit: "fst ?m = Inr ()" if "\<not> isl (fst ?m)"
    using that by (cases "fst ?m") simp_all
  have five: "listRunning (snd ?m) =
        listRunning s @ HUB # filter (shouldStart options) [FUNCTIONS, FIRESTORE, DATABASE, HOSTING, PUBSUB] \<and>
      ((\<forall>i. instance_connect env i) \<and> metadata_readable env options s \<longrightarrow> fst ?m = Inr ())"
    if "list_all (\<lambda>k. ready env options s k \<and> startable env options s k)
      (HUB # filter (shouldStart options) [FUNCTIONS, FIRESTORE, DATABASE, HOSTING, PUBSUB])"
    using good that unit unfolding G ALL_SERVICE_EMULATORS_def by blast
  have three: "(\<exists>rest. HUB # filter (shouldStart options) [FUNCTIONS, FIRESTORE, DATABASE, HOSTING, PUBSUB] =
      attempts (events_since s (snd (startAll env options s))) @ rest) \<and>
   (fst (startAll env options s) = Inr () \<longrightarrow>
      attempts (events_since s (snd (startAll env options s))) =
        HUB # filter (shouldStart options) [FUNCTIONS, FIRESTORE, DATABASE, HOSTING, PUBSUB]) \<and>
   (set (filterEmulatorTargets options) = {FIRESTORE, HOSTING} \<and> registry s = [] \<and>
    import options = None \<and>
    pf_getPortPromise env
      (host (getAddress env HUB (options\<lparr>targets := filterEmulatorTargets options\<rparr>)))
      (port (getAddress env HUB (options\<lparr>targets := filterEmulatorTargets options\<rparr>)))
      (port (getAddress env HUB (options\<lparr>targets := filterEmulatorTargets options\<rparr>)) + 100) =
      Some hubPort \<and>
    port_open env (resolved_address env options HUB) \<and>
    port_open env (resolved_address env options FIRESTORE) \<and>
    port_open env (resolved_address env options HOSTING) \<and>
    (\<forall>i. instance_start env i) \<longrightarrow>
      listRunning (snd (startAll env options s)) = [HUB, FIRESTORE, HOSTING])"
  proof (intro conjI impI)
    from startAll_behaved [of env options s]
    obtain evs where evs: "trace (snd (startAll env options s)) = trace s @ evs"
      and a: "case fst (startAll env options s) of
          Inl e \<Rightarrow> \<exists>rest. HUB # filter (shouldStart options) ALL_SERVICE_EMULATORS = attempts evs @ rest
        | Inr x \<Rightarrow> attempts evs = HUB # filter (shouldStart options) ALL_SERVICE_EMULATORS"
      by (auto simp: behaved_def attempted_def)
    from a show "\<exists>rest. HUB # filter (shouldStart options) [FUNCTIONS, FIRESTORE, DATABASE, HOSTING, PUBSUB] =
        attempts (events_since s (snd (startAll env options s))) @ rest"
      by (cases "fst (startAll env options s)")
         (simp_all add: events_since_append [OF evs] ALL_SERVICE_EMULATORS_def)
    assume "fst (startAll env options s) = Inr ()"
    with a show "attempts (events_since s (snd (startAll env options s))) =
          HUB # filter (shouldStart options) [FUNCTIONS, FIRESTORE, DATABASE, HOSTING, PUBSUB]"
      by (simp add: events_since_append [OF evs] ALL_SERVICE_EMULATORS_def)
  next
    let ?opts = "options\<lparr>targets := filterEmulatorTargets options\<rparr>"
    assume h: "set (filterEmulatorTargets options) = {FIRESTORE, HOSTING} \<and> registry s = [] \<and>
      import options = None \<and>
      pf_getPortPromise env (host (getAddress env HUB ?opts)) (port (getAddress env HUB ?opts))
        (port (getAddress env HUB ?opts) + 100) = Some hubPort \<and>
      port_open env (resolved_address env options HUB) \<and>
      port_open env (resolved_address env options FIRESTORE) \<and>
      port_open env (resolved_address env options HOSTING) \<and>
      (\<forall>i. instance_start env i)"
    then have sel: "\<not> shouldStart options FUNCTIONS" "shouldStart options FIRESTORE"
        "\<not> shouldStart options DATABASE" "shouldStart options HOSTING"
        "\<not> shouldStart options PUBSUB"
      by (simp_all add: shouldStart_def)
    from h have pf: "pf_getPortPromise env (host (getAddress env HUB ?opts))
        (port (getAddress env HUB ?opts)) (port (getAddress env HUB ?opts) + 100) = Some hubPort"
      by simp
    from h have "port_open env (resolved_address env options HUB)"
      "port_open env (resolved_address env options FIRESTORE)"
      "port_open env (resolved_address env options HOSTING)"
      by simp_all
    then have ports: "checkPortOpen env hubPort (host (getAddress env HUB ?opts))"
        "checkPortOpen env (port (getAddress env FIRESTORE ?opts)) (host (getAddress env FIRESTORE ?opts))"
        "checkPortOpen env (port (getAddress env HOSTING ?opts)) (host (getAddress env HOSTING ?opts))"
      by (simp_all add: port_open_def resolved_address_def Let_def pf)
    from h have st: "instance_start env i" for i
      by simp
    from h have empty: "listRunning s = []" "registry s = []" and imp: "import options = None"
      by (simp_all add: listRunning_def)
    show "listRunning (snd (startAll env options s)) = [HUB, FIRESTORE, HOSTING]"
      using sel ports pf imp empty
      by (simp add: startAll_def Let_def getProjectId_def await_def startAll_metadata_def
          startAll_functions_def startAll_firestore_def firestore_seed_def
          startAll_database_def startAll_hosting_def startAll_pubsub_def
          startEmulator_started st del: connect_each.simps split: option.splits)
  qed
  from three four five show ?thesis
    by blast
qed


lemmas path_defs =
  path_join_def path_resolve_def path_normalize_def normalizeString_def isAbsolute_def
  METADATA_FILE_NAME_def

lemmas controller_defs =
  startAll_def getProjectId_def await_def startAll_metadata_def startAll_functions_def
  startAll_firestore_def firestore_seed_def rules_file_def startAll_database_def
  startAll_hosting_def startAll_pubsub_def startEmulator_def Registry_start_def
  Registry_stop_def cleanShutdown_def emit_def isRunning_def Registry_get_def
  listRunning_def checkPortOpen_def shouldStart_def filterEmulatorTargets_def
  ALL_SERVICE_EMULATORS_def intersection_def fs_readFileSync_def fs_existsSync_def Let_def

lemmas scenario_defs =
  quiet_env_def busy_env_def stubborn_env_def offline_env_def base_options_def
  pubsub_options_def import_options_def only_hosting_options_def fresh_def local_getAddress_def local_hub_def
  local_firestore_def local_hosting_def hub_running_def firestore_running_def
  after_export_def

lemma run_local:
  "startAll quiet_env base_options fresh =
     (Inr (),
      \<lparr>registry = [local_hub, local_firestore, local_hosting], files = Map.empty,
       trace = [Track HUB, RegistryStart HUB, Track FIRESTORE, RegistryStart FIRESTORE,
                Track HOSTING, RegistryStart HOSTING, Connect HUB, Connect FIRESTORE,
                Connect HOSTING]\<rparr>)"
  by (simp add: controller_defs scenario_defs)

lemma run_pubsub_without_project:
  "startAll quiet_env pubsub_options fresh =
     (Inl PubsubWithoutProject,
      \<lparr>registry = [EmulatorHub \<lparr>host = ''localhost'', port = 4000, hub_projectId = None\<rparr>],
       files = Map.empty, trace = [Track HUB, RegistryStart HUB]\<rparr>)"
  by (simp add: controller_defs scenario_defs)

lemma run_import_missing:
  "startAll quiet_env import_options fresh =
     (Inl (FileNotFound ''/data/export/metadata.json''),
      \<lparr>registry = [local_hub], files = Map.empty, trace = [Track HUB, RegistryStart HUB]\<rparr>)"
  by (simp add: controller_defs scenario_defs path_defs)



lemma run_import:
  "startAll quiet_env import_options after_export =
     (Inr (),
      \<lparr>registry =
         [local_hub,
          FirestoreEmulator
            \<lparr>host = ''localhost'', port = 8080, firestore_projectId = Some ''demo'',
             firestore_auto_download = True,
             seed_from_export = Some (''/data/export/data/export/firestore_export'' @
               ''/data/export/firestore_export.overall_export_metadata''),
             firestore_rules = None\<rparr>,
          HostingEmulator
            \<lparr>host = ''localhost'', port = 5000,
             hosting_options = import_options\<lparr>targets := [FIRESTORE, HOSTING]\<rparr>\<rparr>],
       files = [''/data/export/metadata.json'' \<mapsto> exported_metadata],
       trace = [Track HUB, RegistryStart HUB, Track FIRESTORE, RegistryStart FIRESTORE,
                Track HOSTING, RegistryStart HOSTING, Connect HUB, Connect FIRESTORE,
                Connect HOSTING]\<rparr>)"
proof -
  have md: "startAll_metadata env options s =
      (Inr \<lparr>version = Some ''7.13.0'', firestore = Some ''firestore_export''\<rparr>, s)"
    if "import options = Some ''/data/export''"
      and "files s = [''/data/export/metadata.json'' \<mapsto> exported_metadata]"
    for env options s
    using that
    by (simp add: startAll_metadata_def fs_readFileSync_def Let_def path_defs
        exported_metadata_def JSON_parse_stringify asExportMetadata_def)
  show ?thesis
    by (simp add: controller_defs (1-3) md controller_defs (5-) scenario_defs path_defs)
qed


lemma run_only_hosting:
  "startAll quiet_env only_hosting_options fresh =
     (Inr (),
      \<lparr>registry =
         [local_hub,
          HostingEmulator
            \<lparr>host = ''localhost'', port = 5000,
             hosting_options = only_hosting_options\<lparr>targets := [HOSTING]\<rparr>\<rparr>],
       files = Map.empty,
       trace = [Track HUB, RegistryStart HUB, Track HOSTING, RegistryStart HOSTING,
                Connect HUB, Connect HOSTING]\<rparr>)"
  by (simp add: controller_defs scenario_defs)

lemma quiet_env_finds_port:
  "pf_getPortPromise quiet_env
      (host (getAddress quiet_env HUB (options\<lparr>targets := filterEmulatorTargets options\<rparr>)))
      (port (getAddress quiet_env HUB (options\<lparr>targets := filterEmulatorTargets options\<rparr>)))
      (port (getAddress quiet_env HUB (options\<lparr>targets := filterEmulatorTargets options\<rparr>)) + 100) =
    Some 4000"
  by (simp add: quiet_env_def local_getAddress_def)

lemma quiet_env_ports_open: "port_open quiet_env addr"
  by (simp add: port_open_def checkPortOpen_def quiet_env_def)

lemma base_targets: "filterEmulatorTargets base_options = [FIRESTORE, HOSTING]"
  by (simp add: filterEmulatorTargets_def ALL_SERVICE_EMULATORS_def base_options_def)

lemma all_services_targets:
  "filterEmulatorTargets all_services_options =
     [FUNCTIONS, FIRESTORE, DATABASE, HOSTING, PUBSUB]"
  by (simp add: filterEmulatorTargets_def ALL_SERVICE_EMULATORS_def all_services_options_def
      base_options_def)

theorem startAll_order_witness:
  "attempts (events_since fresh (snd (startAll quiet_env base_options fresh))) =
     [HUB, FIRESTORE, HOSTING] \<and>
   listRunning (snd (startAll quiet_env base_options fresh)) = [HUB, FIRESTORE, HOSTING] \<and>
   attempts (events_since fresh (snd (startAll quiet_env all_services_options fresh))) =
     [HUB, FUNCTIONS, FIRESTORE, DATABASE, HOSTING, PUBSUB] \<and>
   listRunning (snd (startAll quiet_env all_services_options fresh)) =
     [HUB, FUNCTIONS, FIRESTORE, DATABASE, HOSTING, PUBSUB] \<and>
   fst (startAll quiet_env all_services_options fresh) = Inr () \<and>
   attempts (events_since fresh (snd (startAll busy_env base_options fresh))) =
     [HUB, FIRESTORE, HOSTING]"
proof -
  have ok: "fst (startAll quiet_env base_options fresh) = Inr ()"
    by (simp add: run_local)
  have sel: "filter (shouldStart base_options) [FUNCTIONS, FIRESTORE, DATABASE, HOSTING, PUBSUB] =
      [FIRESTORE, HOSTING]"
    by (simp add: shouldStart_def base_targets)
  have "set (filterEmulatorTargets base_options) = {FIRESTORE, HOSTING}"
    by (simp add: base_targets)
  moreover have "registry fresh = []" "import base_options = None"
      "\<forall>i. instance_start quiet_env i"
    by (simp_all add: fresh_def base_options_def quiet_env_def)
  ultimately have sc: "set (filterEmulatorTargets base_options) = {FIRESTORE, HOSTING}"
      "registry fresh = []" "import base_options = None" "\<forall>i. instance_start quiet_env i"
    by blast+
  from startAll_order [of base_options fresh quiet_env 4000] ok sel sc
    quiet_env_finds_port [of base_options] quiet_env_ports_open
  have a: "attempts (events_since fresh (snd (startAll quiet_env base_options fresh))) =
     [HUB, FIRESTORE, HOSTING] \<and>
   listRunning (snd (startAll quiet_env base_options fresh)) = [HUB, FIRESTORE, HOSTING]"
    by simp
  have sel': "filter (shouldStart all_services_options)
      [FUNCTIONS, FIRESTORE, DATABASE, HOSTING, PUBSUB] =
      [FUNCTIONS, FIRESTORE, DATABASE, HOSTING, PUBSUB]"
    by (simp add: shouldStart_def all_services_targets)
  have md: "metadata_readable env all_services_options s"
      "metadata_readable env base_options s" for env s
    by (simp_all add: metadata_readable_def startAll_metadata_def all_services_options_def
        base_options_def)
  have rdy: "ready quiet_env all_services_options fresh k" for k
    by (cases k)
       (simp_all add: ready_def md Let_def quiet_env_finds_port truthy_def,
        simp_all add: all_services_options_def base_options_def quiet_env_def)
  have stb: "startable quiet_env all_services_options fresh k" for k
    by (simp add: startable_def quiet_env_ports_open listRunning_def fresh_def)
       (simp add: quiet_env_def)
  have con: "\<forall>i. instance_connect quiet_env i"
    by (simp add: quiet_env_def)
  have lr: "listRunning fresh = []"
    by (simp add: listRunning_def fresh_def)
  from startAll_order [of all_services_options fresh quiet_env 4000] rdy stb con md(1) lr
  have b: "listRunning (snd (startAll quiet_env all_services_options fresh)) =
     [HUB, FUNCTIONS, FIRESTORE, DATABASE, HOSTING, PUBSUB] \<and>
   fst (startAll quiet_env all_services_options fresh) = Inr ()"
    unfolding sel' by simp
  from startAll_order [of all_services_options fresh quiet_env 4000] conjunct2 [OF b]
  have c: "attempts (events_since fresh (snd (startAll quiet_env all_services_options fresh))) =
     [HUB, FUNCTIONS, FIRESTORE, DATABASE, HOSTING, PUBSUB]"
    unfolding sel' by blast
  have rdy': "ready busy_env base_options fresh HUB" "ready busy_env base_options fresh FIRESTORE"
      "ready busy_env base_options fresh HOSTING"
    by (simp_all add: ready_def md Let_def busy_env_def quiet_env_def)
  have "reach (ready busy_env base_options fresh) (startable busy_env base_options fresh)
      [HUB, FIRESTORE, HOSTING] = [HUB, FIRESTORE, HOSTING]"
    by (simp add: rdy' startable_def lr)
       (simp add: port_open_def checkPortOpen_def resolved_address_def busy_env_def
          quiet_env_def local_getAddress_def)
  with startAll_order [of base_options fresh busy_env 4000]
  have e: "attempts (events_since fresh (snd (startAll busy_env base_options fresh))) =
     [HUB, FIRESTORE, HOSTING]"
    unfolding sel by (auto simp: append_eq_Cons_conv Cons_eq_append_conv)
  show ?thesis
    by (intro conjI conjunct1 [OF a] conjunct2 [OF a] c conjunct1 [OF b] conjunct2 [OF b] e)
qed





lemma startAll_hub_first:
  assumes "pf_getPortPromise env
      (host (getAddress env HUB (options\<lparr>targets := filterEmulatorTargets options\<rparr>)))
      (port (getAddress env HUB (options\<lparr>targets := filterEmulatorTargets options\<rparr>)))
      (port (getAddress env HUB (options\<lparr>targets := filterEmulatorTargets options\<rparr>)) + 100) =
    Some hubPort"
  shows "\<exists>evs. trace (snd (startAll env options s)) = trace s @ Track HUB # evs \<and>
     (port_open env (resolved_address env options HUB) \<longrightarrow>
        (\<exists>evs'. evs = RegistryStart HUB # evs'))"
proof -
  from startAll_await [OF assms, of s] obtain tail where
    eq: "startAll env options s =
      await (startEmulator env (hub_instance env options hubPort) s) tail"
    and tail: "\<And>u s1. behaved env (resolved_address env options)
      (filter (shouldStart options) ALL_SERVICE_EMULATORS) s1 (tail u s1)"
    by blast
  have addr: "port_open env (resolved_address env options HUB) \<longleftrightarrow>
      checkPortOpen env (port (getInfo (hub_instance env options hubPort)))
        (host (getInfo (hub_instance env options hubPort)))"
    by (simp add: port_open_def resolved_address_def Let_def assms)
  have ext: "\<exists>evs. trace (snd (tail u s1)) = trace s1 @ evs" for u s1
    using tail [of s1 u] by (auto simp: behaved_def attempted_def)
  show ?thesis
  proof (cases env "hub_instance env options hubPort" s rule: startEmulator_cases)
    case started
    let ?s1 = "s\<lparr>registry := registry s @ [hub_instance env options hubPort],
           trace := trace s @ [Track HUB, RegistryStart HUB]\<rparr>"
    from ext obtain evs where "trace (snd (tail () ?s1)) = trace ?s1 @ evs"
      by blast
    with started show ?thesis
      by (simp add: eq await_def)
  next
    case (refused e)
    then show ?thesis
      by (simp add: eq await_def)
  next
    case taken
    then show ?thesis
      by (simp add: eq await_def addr)
  next
    case (stuck j s' evs)
    then show ?thesis
      by (simp add: eq await_def addr)
  qed
qed

lemma startAll_keeps_hub:
  assumes "fst (startAll env options s) = Inr () \<or>
    (\<exists>e. fst (startAll env options s) = Inl e \<and> \<not> shutdown_error e \<and>
       e \<notin> {NoPortAvailable, AlreadyRunning HUB, StartFailed HUB})"
  shows "isRunning (snd (startAll env options s)) HUB \<and> quiet_run s (snd (startAll env options s))"
proof (cases "pf_getPortPromise env
      (host (getAddress env HUB (options\<lparr>targets := filterEmulatorTargets options\<rparr>)))
      (port (getAddress env HUB (options\<lparr>targets := filterEmulatorTargets options\<rparr>)))
      (port (getAddress env HUB (options\<lparr>targets := filterEmulatorTargets options\<rparr>)) + 100)")
  case None
  from assms show ?thesis
    by (simp add: startAll_no_port [OF None])
next
  case (Some hubPort)
  from startAll_await [OF Some, of s] obtain tail where
    eq: "startAll env options s =
      await (startEmulator env (hub_instance env options hubPort) s) tail"
    and tail: "\<And>u s1. behaved env (resolved_address env options)
      (filter (shouldStart options) ALL_SERVICE_EMULATORS) s1 (tail u s1)"
    by blast
  show ?thesis
  proof (cases env "hub_instance env options hubPort" s rule: startEmulator_cases)
    case started
    let ?s1 = "s\<lparr>registry := registry s @ [hub_instance env options hubPort],
           trace := trace s @ [Track HUB, RegistryStart HUB]\<rparr>"
    have 1: "quiet_run s ?s1"
      by (simp add: quiet_run_def)
    from started have r: "startAll env options s = tail () ?s1"
      by (simp add: eq await_def)
    from tail [of ?s1 "()"] assms have 2: "quiet_run ?s1 (snd (startAll env options s))"
      unfolding r by (auto simp: behaved_def no_shutdown_def)
    from 2 have "HUB \<in> set (listRunning (snd (startAll env options s)))"
      by (auto simp: quiet_run_def listRunning_def)
    with quiet_run_trans [OF 1 2] show ?thesis
      by (simp add: isRunning_iff)
  next
    case (refused e)
    with assms show ?thesis
      by (auto simp: eq await_def)
  next
    case taken
    with assms show ?thesis
      by (simp add: eq await_def)
  next
    case (stuck j s' evs)
    with assms show ?thesis
      by (simp add: eq await_def)
  qed
qed

text \<open>
  C1, as the claim states it, fails: with Pub/Sub selected and no project identifier, and
  with an import directory that has no metadata file, startAll throws after the hub was
  started, with no stop issued: the hub is left running.
\<close>
theorem precondition_failure_counterexample:
  "fst (startAll quiet_env pubsub_options fresh) = Inl PubsubWithoutProject \<and>
   listRunning (snd (startAll quiet_env pubsub_options fresh)) = [HUB] \<and>
   trace (snd (startAll quiet_env pubsub_options fresh)) = [Track HUB, RegistryStart HUB] \<and>
   fst (startAll quiet_env import_options fresh) = Inl (FileNotFound ''/data/export/metadata.json'') \<and>
   listRunning (snd (startAll quiet_env import_options fresh)) = [HUB] \<and>
   trace (snd (startAll quiet_env import_options fresh)) = [Track HUB, RegistryStart HUB]"
  by (simp add: run_pubsub_without_project run_import_missing local_hub_def listRunning_def)

text \<open>
  C1, amended. When startAll fails with the precondition failure of Pub/Sub without a
  project, or with a missing metadata file, the failure is surfaced with no shutdown: the
  run issued no stop, every instance registered before or during the run is still
  registered, the hub among them, and the files are untouched. (The shutdown before the
  failure is surfaced belongs to the port conflict alone, C3.)
\<close>

theorem precondition_failure_no_shutdown:
  "fst (startAll env options s) = Inl e \<and> (e = PubsubWithoutProject \<or> e = FileNotFound p) \<longrightarrow>
     isRunning (snd (startAll env options s)) HUB \<and>
     filter is_stop (events_since s (snd (startAll env options s))) = [] \<and>
     (\<exists>is. registry (snd (startAll env options s)) = registry s @ is) \<and>
     files (snd (startAll env options s)) = files s"
proof
  assume h: "fst (startAll env options s) = Inl e \<and> (e = PubsubWithoutProject \<or> e = FileNotFound p)"
  then have "\<exists>e. fst (startAll env options s) = Inl e \<and> \<not> shutdown_error e \<and>
       e \<notin> {NoPortAvailable, AlreadyRunning HUB, StartFailed HUB}"
    by auto
  then have "isRunning (snd (startAll env options s)) HUB \<and>
      quiet_run s (snd (startAll env options s))"
    by (intro startAll_keeps_hub) simp
  then show "isRunning (snd (startAll env options s)) HUB \<and>
     filter is_stop (events_since s (snd (startAll env options s))) = [] \<and>
     (\<exists>is. registry (snd (startAll env options s)) = registry s @ is) \<and>
     files (snd (startAll env options s)) = files s"
    by (auto simp: quiet_run_def)
qed

theorem precondition_failure_no_shutdown_witness:
  "isRunning (snd (startAll quiet_env pubsub_options fresh)) HUB \<and>
   filter is_stop (events_since fresh (snd (startAll quiet_env pubsub_options fresh))) = [] \<and>
   isRunning (snd (startAll quiet_env import_options fresh)) HUB \<and>
   filter is_stop (events_since fresh (snd (startAll quiet_env import_options fresh))) = []"
proof -
  have 1: "fst (startAll quiet_env pubsub_options fresh) = Inl PubsubWithoutProject"
    by (simp add: run_pubsub_without_project)
  have 2: "fst (startAll quiet_env import_options fresh) =
      Inl (FileNotFound ''/data/export/metadata.json'')"
    by (simp add: run_import_missing)
  from precondition_failure_no_shutdown
    [of quiet_env pubsub_options fresh PubsubWithoutProject "''/data/export/metadata.json''"] 1
  have a: "isRunning (snd (startAll quiet_env pubsub_options fresh)) HUB \<and>
      filter is_stop (events_since fresh (snd (startAll quiet_env pubsub_options fresh))) = []"
    by blast
  from precondition_failure_no_shutdown
    [of quiet_env import_options fresh "FileNotFound ''/data/export/metadata.json''"
      "''/data/export/metadata.json''"] 2
  have b: "isRunning (snd (startAll quiet_env import_options fresh)) HUB \<and>
      filter is_stop (events_since fresh (snd (startAll quiet_env import_options fresh))) = []"
    by blast
  show ?thesis
    by (intro conjI conjunct1 [OF a] conjunct2 [OF a] conjunct1 [OF b] conjunct2 [OF b])
qed

text \<open>
  C4. For every options value shouldStart answers true for HUB; whenever a port is found
  for the hub, the first thing startAll does is the shared start procedure on the hub
  (followed by Registry.start of the hub when that port is open), whatever the
  configuration and the \<^verbatim>\<open>--only\<close> filter; and whenever startAll returns, the hub is
  running.
\<close>
theorem hub_always_started:
  "shouldStart options HUB \<and>
   (pf_getPortPromise env
      (host (getAddress env HUB (options\<lparr>targets := filterEmulatorTargets options\<rparr>)))
      (port (getAddress env HUB (options\<lparr>targets := filterEmulatorTargets options\<rparr>)))
      (port (getAddress env HUB (options\<lparr>targets := filterEmulatorTargets options\<rparr>)) + 100) =
      Some hubPort \<longrightarrow>
    (\<exists>evs. events_since s (snd (startAll env options s)) = Track HUB # evs \<and>
       (port_open env (resolved_address env options HUB) \<longrightarrow>
          (\<exists>evs'. evs = RegistryStart HUB # evs')))) \<and>
   (fst (startAll env options s) = Inr () \<longrightarrow> isRunning (snd (startAll env options s)) HUB)"
proof (intro conjI impI)
  show "shouldStart options HUB"
    by (simp add: shouldStart_def)
next
  assume "pf_getPortPromise env
      (host (getAddress env HUB (options\<lparr>targets := filterEmulatorTargets options\<rparr>)))
      (port (getAddress env HUB (options\<lparr>targets := filterEmulatorTargets options\<rparr>)))
      (port (getAddress env HUB (options\<lparr>targets := filterEmulatorTargets options\<rparr>)) + 100) =
      Some hubPort"
  from startAll_hub_first [OF this, of s]
  show "\<exists>evs. events_since s (snd (startAll env options s)) = Track HUB # evs \<and>
       (port_open env (resolved_address env options HUB) \<longrightarrow>
          (\<exists>evs'. evs = RegistryStart HUB # evs'))"
    by (auto simp: events_since_def)
next
  assume "fst (startAll env options s) = Inr ()"
  then show "isRunning (snd (startAll env options s)) HUB"
    using startAll_keeps_hub [of env options s] by simp
qed

theorem hub_always_started_witness:
  "shouldStart only_hosting_options HUB \<and>
   \<not> shouldStart only_hosting_options FIRESTORE \<and>
   isRunning (snd (startAll quiet_env only_hosting_options fresh)) HUB \<and>
   (\<exists>evs. events_since fresh (snd (startAll quiet_env only_hosting_options fresh)) =
      Track HUB # RegistryStart HUB # evs)"
proof -
  have ok: "fst (startAll quiet_env only_hosting_options fresh) = Inr ()"
    by (simp add: run_only_hosting)
  have no: "\<not> shouldStart only_hosting_options FIRESTORE"
    by (simp add: shouldStart_def filterEmulatorTargets_def ALL_SERVICE_EMULATORS_def
        intersection_def only_hosting_options_def base_options_def)
  from hub_always_started [of only_hosting_options quiet_env 4000 fresh] ok
    quiet_env_finds_port [of only_hosting_options] quiet_env_ports_open
  have "shouldStart only_hosting_options HUB \<and>
   isRunning (snd (startAll quiet_env only_hosting_options fresh)) HUB \<and>
   (\<exists>evs. events_since fresh (snd (startAll quiet_env only_hosting_options fresh)) =
      Track HUB # RegistryStart HUB # evs)"
    by auto
  with no show ?thesis
    by blast
qed

text \<open>
  C2, on the code: the export of the base project to \<^verbatim>\<open>/data/export\<close> writes the metadata
  with \<open>firestore\<close> = \<^verbatim>\<open>firestore_export\<close>, the sub-path \<^verbatim>\<open>/data/export/firestore_export\<close> of the
  import directory. Started again with that directory as import source, startAll joins the
  import directory to the export name, and then joins the import directory again to
  that absolute path taken twice: the seed path of the Firestore emulator is not below
  the recorded sub-path.
\<close>
theorem import_seed_path:
  "files (snd (exportAll quiet_env ''demo'' ''/data/export'' firestore_running)) = files after_export \<and>
   path_join [path_resolve (cwd quiet_env) ''/data/export'', ''firestore_export''] =
     ''/data/export/firestore_export'' \<and>
   Registry_get (snd (startAll quiet_env import_options after_export)) FIRESTORE =
     Some (FirestoreEmulator
            \<lparr>host = ''localhost'', port = 8080, firestore_projectId = Some ''demo'',
             firestore_auto_download = True,
             seed_from_export =
               Some ''/data/export/data/export/firestore_export/data/export/firestore_export.overall_export_metadata'',
             firestore_rules = None\<rparr>)"
proof (intro conjI)
  have "exportAll quiet_env ''demo'' ''/data/export'' firestore_running =
      (Inr (), snd (exportAll quiet_env ''demo'' ''/data/export'' firestore_running))"
    unfolding exportAll_running [OF firestore_running_isRunning]
    by (simp add: await_def exportFirestore_def Registry_get_def firestore_running_def
        local_hub_def local_firestore_def quiet_env_def Let_def fs_writeFileSync_def)
  from exportAll_success [OF this]
  show "files (snd (exportAll quiet_env ''demo'' ''/data/export'' firestore_running)) =
      files after_export"
    by (simp add: after_export_def exported_metadata_def firestore_running_def quiet_env_def
        path_defs)
  show "path_join [path_resolve (cwd quiet_env) ''/data/export'', ''firestore_export''] =
     ''/data/export/firestore_export''"
    by (simp add: path_defs)
  show "Registry_get (snd (startAll quiet_env import_options after_export)) FIRESTORE =
     Some (FirestoreEmulator
            \<lparr>host = ''localhost'', port = 8080, firestore_projectId = Some ''demo'',
             firestore_auto_download = True,
             seed_from_export =
               Some ''/data/export/data/export/firestore_export/data/export/firestore_export.overall_export_metadata'',
             firestore_rules = None\<rparr>)"
    by (simp add: run_import Registry_get_def local_hub_def)
qed

end
